theory Spec2Isabelle
  imports Complex_Main "HOL-Library.AList" "HOL-Library.Log_Nat"
begin

section \<open>Flight route planner: the route scoring core of atc.py\<close>

text \<open>
  The core of \<^verbatim>\<open>atc.py\<close> is four functions over a \<^verbatim>\<open>networkx.DiGraph\<close>:
  \<^verbatim>\<open>build_air_route_graph\<close>, \<^verbatim>\<open>dijkstra_multi_objective\<close>,
  \<^verbatim>\<open>simulate_weather_conditions\<close> and \<^verbatim>\<open>analyze_path\<close>.

  Numbers. The edge attributes, the weights and the scores are Python floats read from
  a table: IEEE 754 binary64 numbers. A graph of the model holds the real value of each
  attribute. The scoring of \<^verbatim>\<open>dijkstra_multi_objective\<close> is modelled twice. In double
  arithmetic (\<open>float64\<close>) every sum and product is rounded, a result that is too large
  is an infinity, and NaN arises and spreads as in the code; the rounding is a parameter,
  and \<open>round64\<close> is that of binary64. In exact arithmetic the numbers are reals and
  \<^verbatim>\<open>float('inf')\<close> is a value of its own that is larger than every real: this is the
  scorer in double arithmetic with a rounding that changes nothing, and it is used where
  the arithmetic plays no role and on the scenario, where both give the same route. The
  weather and \<^verbatim>\<open>analyze_path\<close> are modelled in exact arithmetic.

  Exceptions are values: a function that can raise returns \<open>py_error + 'a\<close>.
\<close>

datatype py_error = NodeNotFound | NetworkXNoPath | KeyError | ZeroDivisionError

datatype pyfloat = Finite real | Inf

subsection \<open>The graph: networkx.DiGraph\<close>

text \<open>
  A \<^verbatim>\<open>DiGraph\<close> keeps two dictionaries that matter here: \<^verbatim>\<open>_node\<close>, from a node to
  its attribute dictionary, and \<^verbatim>\<open>_adj\<close> (the same object as \<^verbatim>\<open>_succ\<close>), from a
  node to the dictionary of its successors, each with the edge's attribute dictionary.
  Python dictionaries iterate in insertion order and an assignment to a present key keeps
  its place, so each is an association list, read with \<open>map_of\<close> and written with
  \<open>AList.update\<close>. The predecessor dictionary \<^verbatim>\<open>_pred\<close> is read by none of the four
  functions and is left out.

  An edge of this program always carries the four attributes that
  \<^verbatim>\<open>build_air_route_graph\<close> gives it. A node carries \<^verbatim>\<open>name\<close> and \<^verbatim>\<open>pos\<close>, or
  nothing at all when it was created by \<^verbatim>\<open>add_edge\<close> (\<open>None\<close>).
\<close>

record edge_data =
  weight :: real
  duration :: real
  fuel :: real
  congestion :: real

record node_data =
  name :: string
  pos :: "real \<times> real"

record DiGraph =
  node_dict :: "(int \<times> node_data option) list"
  adj_dict :: "(int \<times> (int \<times> edge_data) list) list"

definition empty_DiGraph :: DiGraph where
  "empty_DiGraph = \<lparr>node_dict = [], adj_dict = []\<rparr>"

text \<open>\<^verbatim>\<open>n in G\<close> looks the node up in \<^verbatim>\<open>_node\<close>.\<close>

definition has_node :: "DiGraph \<Rightarrow> int \<Rightarrow> bool" where
  "has_node G n = (n \<in> set (map fst (node_dict G)))"

text \<open>
  \<^verbatim>\<open>G.add_node(n, name=.., pos=..)\<close>: a new node gets empty adjacency and the
  attributes; a present node has its attribute dictionary updated, in place.
\<close>

definition add_node :: "DiGraph \<Rightarrow> int \<Rightarrow> node_data \<Rightarrow> DiGraph" where
  "add_node G n attr =
     (if n \<notin> set (map fst (node_dict G))
      then G\<lparr>node_dict := node_dict G @ [(n, Some attr)], adj_dict := adj_dict G @ [(n, [])]\<rparr>
      else G\<lparr>node_dict := AList.update n (Some attr) (node_dict G)\<rparr>)"

text \<open>
  \<^verbatim>\<open>G.add_edge(u, v, **attr)\<close>: each endpoint that is not a key of \<^verbatim>\<open>_succ\<close> is
  created first, with an empty attribute dictionary; then the attributes are written to
  \<^verbatim>\<open>_adj[u][v]\<close>. All four attributes are given at every call of the program, so an
  existing edge has all four replaced.
\<close>

definition ensure_node :: "DiGraph \<Rightarrow> int \<Rightarrow> DiGraph" where
  "ensure_node G u =
     (if u \<notin> set (map fst (adj_dict G))
      then G\<lparr>node_dict := node_dict G @ [(u, None)], adj_dict := adj_dict G @ [(u, [])]\<rparr>
      else G)"

definition add_edge :: "DiGraph \<Rightarrow> int \<Rightarrow> int \<Rightarrow> edge_data \<Rightarrow> DiGraph" where
  "add_edge G u v attr =
     (let G1 = ensure_node (ensure_node G u) v in
      case map_of (adj_dict G1) u of
        None \<Rightarrow> G1
      | Some nbrs \<Rightarrow> G1\<lparr>adj_dict := AList.update u (AList.update v attr nbrs) (adj_dict G1)\<rparr>)"

text \<open>
  \<^verbatim>\<open>graph[u][v]\<close>: the attribute dictionary of the edge, or \<^verbatim>\<open>KeyError\<close> when \<open>u\<close>
  is not a node or \<open>v\<close> is not a successor of \<open>u\<close>.
\<close>

definition get_edge :: "DiGraph \<Rightarrow> int \<Rightarrow> int \<Rightarrow> py_error + edge_data" where
  "get_edge G u v =
     (case map_of (adj_dict G) u of
        None \<Rightarrow> Inl KeyError
      | Some nbrs \<Rightarrow> (case map_of nbrs v of None \<Rightarrow> Inl KeyError | Some d \<Rightarrow> Inr d))"

text \<open>The successors of a node in adjacency order (\<^verbatim>\<open>G.edges(u)\<close>, \<^verbatim>\<open>G[u]\<close>).\<close>

definition successors :: "DiGraph \<Rightarrow> int \<Rightarrow> int list" where
  "successors G u = (case map_of (adj_dict G) u of None \<Rightarrow> [] | Some nbrs \<Rightarrow> map fst nbrs)"

text \<open>\<^verbatim>\<open>G.edges(data=True)\<close>: every edge, node by node, in adjacency order.\<close>

definition edges :: "DiGraph \<Rightarrow> (int \<times> int \<times> edge_data) list" where
  "edges G = concat (map (\<lambda>(u, nbrs). map (\<lambda>(v, d). (u, v, d)) nbrs) (adj_dict G))"

subsection \<open>build_air_route_graph\<close>

text \<open>
  The two tables arrive as lists of rows (reading the files is outside the core); the
  columns are the ones the function reads. It returns the graph and the airports table.
\<close>

record airport_row =
  airport_id :: int
  airport_name :: string
  lat :: real
  lon :: real

record route_row =
  route_from :: int
  route_to :: int
  distance_km :: real
  avg_duration_min :: real
  fuel_cost_l :: real
  congestion_factor :: real

definition route_attr :: "route_row \<Rightarrow> edge_data" where
  "route_attr row = \<lparr>weight = distance_km row, duration = avg_duration_min row,
                      fuel = fuel_cost_l row, congestion = congestion_factor row\<rparr>"

definition airport_attr :: "airport_row \<Rightarrow> node_data" where
  "airport_attr row = \<lparr>name = airport_name row, pos = (lat row, lon row)\<rparr>"

definition build_air_route_graph ::
  "airport_row list \<Rightarrow> route_row list \<Rightarrow> DiGraph \<times> airport_row list" where
  "build_air_route_graph airports routes =
     (let G0 = empty_DiGraph;
          G1 = fold (\<lambda>row G. add_node G (airport_id row) (airport_attr row)) airports G0;
          G2 = fold (\<lambda>row G. add_edge G (route_from row) (route_to row) (route_attr row)) routes G1
      in (G2, airports))"

subsection \<open>networkx.all_simple_paths\<close>

text \<open>
  \<^verbatim>\<open>nx.all_simple_paths(G, source, target)\<close> raises \<^verbatim>\<open>NodeNotFound\<close> when the source
  or the target is not a node of \<open>G\<close>. Otherwise it yields the simple paths from the
  source to the target by a depth-first search: the edges of the last node of the current
  path are tried in adjacency order, an edge into a node of the current path is skipped,
  a path is yielded when the edge reaches the target, and the search goes on through the
  node reached only if it is not the target. The search is started with a dummy edge
  into the source, so that for \<open>source = target\<close> the one-node path is yielded (recent
  networkx 3 releases; older ones yield nothing then, which only the lemma
  \<open>dijkstra_same_node\<close> below depends on). Its depth bound is the number of nodes less one, which no
  simple path of a graph exceeds, so the bound is left out.

  \<open>dfs G target path children\<close> is the search below the current \<open>path\<close> through the
  edges into \<open>children\<close> that remain to be tried.
\<close>

definition graph_ids :: "DiGraph \<Rightarrow> int set" where
  "graph_ids G = set (concat (map (\<lambda>(u, nbrs). map fst nbrs) (adj_dict G)))"

lemma successors_graph_ids: "set (successors G u) \<subseteq> graph_ids G"
proof (cases "map_of (adj_dict G) u")
  case None
  then show ?thesis by (simp add: successors_def)
next
  case (Some nbrs)
  then have "(u, nbrs) \<in> set (adj_dict G)" by (rule map_of_SomeD)
  then have "set (map fst nbrs) \<subseteq> graph_ids G"
    unfolding graph_ids_def by force
  with Some show ?thesis by (simp add: successors_def)
qed

lemma finite_graph_ids: "finite (graph_ids G)"
  unfolding graph_ids_def by (rule finite_set)

lemma dfs_measure_le:
  "card ((graph_ids G \<union> set children) - set path)
     \<le> card ((graph_ids G \<union> set (child # children)) - set path)"
proof (rule card_mono)
  show "finite ((graph_ids G \<union> set (child # children)) - set path)"
    by (simp add: finite_graph_ids)
  show "(graph_ids G \<union> set children) - set path
          \<subseteq> (graph_ids G \<union> set (child # children)) - set path" by auto
qed

function dfs :: "DiGraph \<Rightarrow> int \<Rightarrow> int list \<Rightarrow> int list \<Rightarrow> int list list" where
  "dfs G target path [] = []"
| "dfs G target path (child # children) =
     (if child \<in> set path then dfs G target path children
      else if child = target then (path @ [child]) # dfs G target path children
      else dfs G target (path @ [child]) (successors G child) @ dfs G target path children)"
  by pat_completeness auto
termination
proof (relation "measures [\<lambda>(G, target, path, children).
                              card ((graph_ids G \<union> set children) - set path),
                            \<lambda>(G, target, path, children). length children]", goal_cases)
  case 1
  show ?case by simp
next
  case (2 G target path child children)
  show ?case using dfs_measure_le[of G children path child] by auto
next
  case (3 G target path child children)
  show ?case using dfs_measure_le[of G children path child] by auto
next
  case (4 G target path child children)
  have fin: "finite ((graph_ids G \<union> set (child # children)) - set path)"
    by (simp add: finite_graph_ids)
  have "(graph_ids G \<union> set (successors G child)) - set (path @ [child])
          \<subset> (graph_ids G \<union> set (child # children)) - set path"
    using 4 successors_graph_ids[of G child] by auto
  with fin have "card ((graph_ids G \<union> set (successors G child)) - set (path @ [child]))
          < card ((graph_ids G \<union> set (child # children)) - set path)"
    by (rule psubset_card_mono)
  then show ?case by simp
next
  case (5 G target path child children)
  show ?case using dfs_measure_le[of G children path child] by auto
qed

definition all_simple_paths :: "DiGraph \<Rightarrow> int \<Rightarrow> int \<Rightarrow> py_error + int list list" where
  "all_simple_paths G source target =
     (if \<not> has_node G source then Inl NodeNotFound
      else if \<not> has_node G target then Inl NodeNotFound
      else Inr (dfs G target [] [source]))"

subsection \<open>dijkstra_multi_objective\<close>

text \<open>
  The dictionaries \<^verbatim>\<open>total\<close> and \<^verbatim>\<open>weights\<close> have the four keys
  \<^verbatim>\<open>distance\<close>, \<^verbatim>\<open>duration\<close>, \<^verbatim>\<open>fuel\<close> and \<^verbatim>\<open>congestion\<close>.
\<close>

record totals =
  total_distance :: real
  total_duration :: real
  total_fuel :: real
  total_congestion :: real

record weights =
  w_distance :: real
  w_duration :: real
  w_fuel :: real
  w_congestion :: real

definition zero_totals :: totals where
  "zero_totals = \<lparr>total_distance = 0, total_duration = 0, total_fuel = 0, total_congestion = 0\<rparr>"

text \<open>
  The inner loop (lines 39 to 44): \<^verbatim>\<open>for i in range(len(path) - 1)\<close> reads the edge
  between \<^verbatim>\<open>path[i]\<close> and \<^verbatim>\<open>path[i + 1]\<close> and adds its attributes to \<^verbatim>\<open>total\<close>.
\<close>

fun sum_edges :: "DiGraph \<Rightarrow> int list \<Rightarrow> totals \<Rightarrow> py_error + totals" where
  "sum_edges G (u # v # rest) tot =
     (case get_edge G u v of
        Inl e \<Rightarrow> Inl e
      | Inr edge \<Rightarrow>
          sum_edges G (v # rest)
            (tot\<lparr>total_distance := total_distance tot + weight edge,
                 total_duration := total_duration tot + duration edge,
                 total_fuel := total_fuel tot + fuel edge,
                 total_congestion := total_congestion tot + congestion edge\<rparr>))"
| "sum_edges G path tot = Inr tot"

text \<open>The weighted sum (lines 46 to 49).\<close>

definition weighted_sum :: "weights \<Rightarrow> totals \<Rightarrow> real" where
  "weighted_sum w tot =
     w_distance w * total_distance tot + w_duration w * total_duration tot +
     w_fuel w * total_fuel tot + w_congestion w * total_congestion tot"

text \<open>The score of one path: the body of the outer loop up to the comparison.\<close>

definition path_score :: "DiGraph \<Rightarrow> weights \<Rightarrow> int list \<Rightarrow> py_error + real" where
  "path_score G w path =
     (case sum_edges G path zero_totals of
        Inl e \<Rightarrow> Inl e
      | Inr tot \<Rightarrow> Inr (weighted_sum w tot))"

text \<open>\<^verbatim>\<open>score < best_score\<close>, where \<^verbatim>\<open>best_score\<close> starts as \<^verbatim>\<open>float('inf')\<close>.\<close>

fun score_less :: "real \<Rightarrow> pyfloat \<Rightarrow> bool" where
  "score_less score Inf = True"
| "score_less score (Finite best) = (score < best)"

text \<open>The outer loop (lines 37 to 53), with \<^verbatim>\<open>best_score\<close> and \<^verbatim>\<open>best_path\<close> as state.\<close>

fun dijkstra_loop ::
  "DiGraph \<Rightarrow> weights \<Rightarrow> int list list \<Rightarrow> pyfloat \<Rightarrow> int list option
     \<Rightarrow> py_error + (int list option \<times> pyfloat)" where
  "dijkstra_loop G w [] best_score best_path = Inr (best_path, best_score)"
| "dijkstra_loop G w (path # paths) best_score best_path =
     (case path_score G w path of
        Inl e \<Rightarrow> Inl e
      | Inr score \<Rightarrow>
          if score_less score best_score
          then dijkstra_loop G w paths (Finite score) (Some path)
          else dijkstra_loop G w paths best_score best_path)"

text \<open>
  The handler catches \<^verbatim>\<open>NetworkXNoPath\<close> only; any other exception of the
  enumeration leaves the function.
\<close>

definition dijkstra_multi_objective ::
  "DiGraph \<Rightarrow> int \<Rightarrow> int \<Rightarrow> weights \<Rightarrow> py_error + (int list option \<times> pyfloat)" where
  "dijkstra_multi_objective graph start finish w =
     (case all_simple_paths graph start finish of
        Inl e \<Rightarrow> (if e = NetworkXNoPath then Inr (None, Inf) else Inl e)
      | Inr paths \<Rightarrow> dijkstra_loop graph w paths Inf None)"

subsection \<open>dijkstra_multi_objective in double arithmetic\<close>

text \<open>
  A Python float is an IEEE 754 binary64 number: a real, plus or minus infinity, or NaN.
  The sum and the product of two finite floats are the exact result rounded, by \<open>rnd\<close>
  below, which gives an infinity when the exact result is too large. Infinity minus
  infinity and zero times infinity are NaN, and an operation with a NaN operand gives
  NaN. The two zeros are one value here: no comparison tells them apart, and the product
  of either with an infinity is NaN.
\<close>

datatype float64 = Fin real | PInf | NInf | NaN

fun fneg :: "float64 \<Rightarrow> float64" where
  "fneg (Fin x) = Fin (- x)"
| "fneg PInf = NInf"
| "fneg NInf = PInf"
| "fneg NaN = NaN"

fun fadd :: "(real \<Rightarrow> float64) \<Rightarrow> float64 \<Rightarrow> float64 \<Rightarrow> float64" where
  "fadd rnd NaN b = NaN"
| "fadd rnd a NaN = NaN"
| "fadd rnd (Fin x) (Fin y) = rnd (x + y)"
| "fadd rnd PInf NInf = NaN"
| "fadd rnd NInf PInf = NaN"
| "fadd rnd PInf b = PInf"
| "fadd rnd a PInf = PInf"
| "fadd rnd NInf b = NInf"
| "fadd rnd a NInf = NInf"

fun fmul :: "(real \<Rightarrow> float64) \<Rightarrow> float64 \<Rightarrow> float64 \<Rightarrow> float64" where
  "fmul rnd NaN b = NaN"
| "fmul rnd a NaN = NaN"
| "fmul rnd (Fin x) (Fin y) = rnd (x * y)"
| "fmul rnd (Fin x) b = (if x = 0 then NaN else if 0 < x then b else fneg b)"
| "fmul rnd a (Fin y) = (if y = 0 then NaN else if 0 < y then a else fneg a)"
| "fmul rnd a b = (if a = b then PInf else NInf)"

text \<open>
  \<^verbatim>\<open>a < b\<close> and \<^verbatim>\<open>a <= b\<close> on floats: both are false as soon as one side is NaN.
\<close>

fun flt :: "float64 \<Rightarrow> float64 \<Rightarrow> bool" where
  "flt NaN b = False"
| "flt a NaN = False"
| "flt (Fin x) (Fin y) = (x < y)"
| "flt a NInf = False"
| "flt PInf b = False"
| "flt a PInf = True"
| "flt NInf b = True"

definition fle :: "float64 \<Rightarrow> float64 \<Rightarrow> bool" where
  "fle a b = (flt a b \<or> (a = b \<and> a \<noteq> NaN))"

text \<open>
  The dictionary \<^verbatim>\<open>total\<close> in double arithmetic. It starts at zero, and one pass of
  the inner loop (lines 41 to 44) adds the four attributes of an edge, each a finite
  float of which the graph holds the real value.
\<close>

record totals64 =
  distance64 :: float64
  duration64 :: float64
  fuel64 :: float64
  congestion64 :: float64

definition zero_totals64 :: totals64 where
  "zero_totals64 = \<lparr>distance64 = Fin 0, duration64 = Fin 0, fuel64 = Fin 0, congestion64 = Fin 0\<rparr>"

definition add_edge64 :: "(real \<Rightarrow> float64) \<Rightarrow> totals64 \<Rightarrow> edge_data \<Rightarrow> totals64" where
  "add_edge64 rnd tot edge =
     tot\<lparr>distance64 := fadd rnd (distance64 tot) (Fin (weight edge)),
         duration64 := fadd rnd (duration64 tot) (Fin (duration edge)),
         fuel64 := fadd rnd (fuel64 tot) (Fin (fuel edge)),
         congestion64 := fadd rnd (congestion64 tot) (Fin (congestion edge))\<rparr>"

fun sum_edges64 ::
  "(real \<Rightarrow> float64) \<Rightarrow> DiGraph \<Rightarrow> int list \<Rightarrow> totals64 \<Rightarrow> py_error + totals64" where
  "sum_edges64 rnd G (u # v # rest) tot =
     (case get_edge G u v of
        Inl e \<Rightarrow> Inl e
      | Inr edge \<Rightarrow> sum_edges64 rnd G (v # rest) (add_edge64 rnd tot edge))"
| "sum_edges64 rnd G path tot = Inr tot"

text \<open>
  The weighted sum (lines 46 to 49): four products, added from left to right, each
  operation rounded.
\<close>

definition weighted_sum64 :: "(real \<Rightarrow> float64) \<Rightarrow> weights \<Rightarrow> totals64 \<Rightarrow> float64" where
  "weighted_sum64 rnd w tot =
     fadd rnd
       (fadd rnd
          (fadd rnd (fmul rnd (Fin (w_distance w)) (distance64 tot))
                    (fmul rnd (Fin (w_duration w)) (duration64 tot)))
          (fmul rnd (Fin (w_fuel w)) (fuel64 tot)))
       (fmul rnd (Fin (w_congestion w)) (congestion64 tot))"

definition path_score64 ::
  "(real \<Rightarrow> float64) \<Rightarrow> DiGraph \<Rightarrow> weights \<Rightarrow> int list \<Rightarrow> py_error + float64" where
  "path_score64 rnd G w path =
     (case sum_edges64 rnd G path zero_totals64 of
        Inl e \<Rightarrow> Inl e
      | Inr tot \<Rightarrow> Inr (weighted_sum64 rnd w tot))"

text \<open>
  The outer loop and the function, as above, with \<^verbatim>\<open>score < best_score\<close> the
  comparison of floats.
\<close>

fun dijkstra_loop64 ::
  "(real \<Rightarrow> float64) \<Rightarrow> DiGraph \<Rightarrow> weights \<Rightarrow> int list list \<Rightarrow> float64 \<Rightarrow> int list option
     \<Rightarrow> py_error + (int list option \<times> float64)" where
  "dijkstra_loop64 rnd G w [] best_score best_path = Inr (best_path, best_score)"
| "dijkstra_loop64 rnd G w (path # paths) best_score best_path =
     (case path_score64 rnd G w path of
        Inl e \<Rightarrow> Inl e
      | Inr score \<Rightarrow>
          if flt score best_score
          then dijkstra_loop64 rnd G w paths score (Some path)
          else dijkstra_loop64 rnd G w paths best_score best_path)"

definition dijkstra_multi_objective64 ::
  "(real \<Rightarrow> float64) \<Rightarrow> DiGraph \<Rightarrow> int \<Rightarrow> int \<Rightarrow> weights
     \<Rightarrow> py_error + (int list option \<times> float64)" where
  "dijkstra_multi_objective64 rnd graph start finish w =
     (case all_simple_paths graph start finish of
        Inl e \<Rightarrow> (if e = NetworkXNoPath then Inr (None, PInf) else Inl e)
      | Inr paths \<Rightarrow> dijkstra_loop64 rnd graph w paths PInf None)"

text \<open>
  The rounding of binary64, to the nearest float with ties to the even one. A float has
  53 significant bits and a binary exponent from -1022 to 1023, so the floats around
  \<open>x\<close> are the multiples of two to the power \<open>ulp_exponent x\<close>, which is the
  binary exponent of \<open>x\<close> less 52; below the least exponent the spacing stays that of
  the subnormal numbers. \<open>bitlen n\<close> is the number of binary digits of \<open>n\<close>, so
  the binary exponent of \<open>x\<close> is that of the integer part of \<open>x\<close> times two to the
  power 1074, less 1074. A result that rounds to two to the power 1024 or beyond is an
  infinity.
\<close>

definition round_even :: "real \<Rightarrow> int" where
  "round_even x =
     (let f = \<lfloor>x\<rfloor>; r = x - of_int f
      in if r < 1 / 2 then f else if 1 / 2 < r then f + 1 else if even f then f else f + 1)"

definition ulp_exponent :: "real \<Rightarrow> int" where
  "ulp_exponent x = max (bitlen \<lfloor>\<bar>x\<bar> * 2 ^ 1074\<rfloor> - 1075) (- 1022) - 52"

definition round64 :: "real \<Rightarrow> float64" where
  "round64 x =
     (let q = ulp_exponent x; y = of_int (round_even (x / 2 powi q)) * 2 powi q
      in if 2 ^ 1024 \<le> y then PInf else if y \<le> - (2 ^ 1024) then NInf else Fin y)"

text \<open>
  The values of the exact scorer among the floats. With a rounding that changes nothing
  the scorer in double arithmetic is the exact one (lemma
  \<open>dijkstra_multi_objective64_exact\<close> below).
\<close>

fun to_float64 :: "pyfloat \<Rightarrow> float64" where
  "to_float64 (Finite x) = Fin x"
| "to_float64 Inf = PInf"

definition to_totals64 :: "totals \<Rightarrow> totals64" where
  "to_totals64 t =
     \<lparr>distance64 = Fin (total_distance t), duration64 = Fin (total_duration t),
      fuel64 = Fin (total_fuel t), congestion64 = Fin (total_congestion t)\<rparr>"

subsection \<open>simulate_weather_conditions\<close>

text \<open>
  The function takes the graph only and draws from the generator of the \<^verbatim>\<open>random\<close>
  module, which is global state of the process. That state is modelled by the sequence
  of the values \<^verbatim>\<open>random.random()\<close> is going to return; a draw returns the first and
  leaves the rest. \<^verbatim>\<open>random.uniform(a, b)\<close> is \<^verbatim>\<open>a + (b - a) * random()\<close>.
\<close>

type_synonym rng = "nat \<Rightarrow> real"

definition random_random :: "rng \<Rightarrow> real \<times> rng" where
  "random_random rs = (rs 0, \<lambda>n. rs (Suc n))"

definition uniform :: "real \<Rightarrow> real \<Rightarrow> rng \<Rightarrow> real \<times> rng" where
  "uniform a b rs = (case random_random rs of (x, rs') \<Rightarrow> (a + (b - a) * x, rs'))"

text \<open>
  The loop over \<^verbatim>\<open>route_graph.edges(data=True)\<close> updates each edge's attribute
  dictionary in place: first over the successors of one node, then over the nodes.
\<close>

fun perturb_nbrs :: "(int \<times> edge_data) list \<Rightarrow> rng \<Rightarrow> (int \<times> edge_data) list \<times> rng" where
  "perturb_nbrs [] rs = ([], rs)"
| "perturb_nbrs ((v, data) # rest) rs =
     (case uniform 0 20 rs of (weather_delay, rs1) \<Rightarrow>
      case uniform 0 (2 / 10) rs1 of (extra, rs2) \<Rightarrow>
      case perturb_nbrs rest rs2 of (rest', rs3) \<Rightarrow>
        ((v, data\<lparr>duration := duration data + weather_delay,
                   congestion := congestion data + extra\<rparr>) # rest', rs3))"

fun perturb_adj ::
  "(int \<times> (int \<times> edge_data) list) list \<Rightarrow> rng
     \<Rightarrow> (int \<times> (int \<times> edge_data) list) list \<times> rng" where
  "perturb_adj [] rs = ([], rs)"
| "perturb_adj ((u, nbrs) # rest) rs =
     (case perturb_nbrs nbrs rs of (nbrs', rs1) \<Rightarrow>
      case perturb_adj rest rs1 of (rest', rs2) \<Rightarrow> ((u, nbrs') # rest', rs2))"

definition simulate_weather_conditions :: "DiGraph \<Rightarrow> rng \<Rightarrow> DiGraph \<times> rng" where
  "simulate_weather_conditions route_graph rs =
     (case perturb_adj (adj_dict route_graph) rs of
        (adj', rs') \<Rightarrow> (route_graph\<lparr>adj_dict := adj'\<rparr>, rs'))"

subsection \<open>analyze_path\<close>

text \<open>
  The loop (lines 67 to 72) keeps the four sums in local variables. The average divides
  by \<^verbatim>\<open>len(path) - 1\<close>, a Python integer: division by zero raises.
\<close>

fun analyze_loop ::
  "DiGraph \<Rightarrow> int list \<Rightarrow> real \<times> real \<times> real \<times> real
     \<Rightarrow> py_error + (real \<times> real \<times> real \<times> real)" where
  "analyze_loop G (u # v # rest) (dsum, tsum, fsum, csum) =
     (case get_edge G u v of
        Inl e \<Rightarrow> Inl e
      | Inr edge \<Rightarrow>
          analyze_loop G (v # rest)
            (dsum + weight edge, tsum + duration edge, fsum + fuel edge, csum + congestion edge))"
| "analyze_loop G path acc = Inr acc"

record metrics =
  total_distance_km :: real
  flight_duration_min :: real
  fuel_consumed_l :: real
  avg_congestion :: real

definition analyze_path :: "DiGraph \<Rightarrow> int list \<Rightarrow> py_error + metrics" where
  "analyze_path G path =
     (case analyze_loop G path (0, 0, 0, 0) of
        Inl e \<Rightarrow> Inl e
      | Inr (dsum, tsum, fsum, csum) \<Rightarrow>
          if int (length path) - 1 = 0 then Inl ZeroDivisionError
          else Inr \<lparr>total_distance_km = dsum, flight_duration_min = tsum,
                    fuel_consumed_l = fsum,
                    avg_congestion = csum / of_int (int (length path) - 1)\<rparr>)"

subsection \<open>The four-airport scenario\<close>

text \<open>
  The airports A, B, C and D have the ids 1 to 4; the routes are A to B, B to D, A to C
  and C to D, in this order, with the costs of the scenario.
\<close>

definition scenario_airports :: "airport_row list" where
  "scenario_airports =
     [\<lparr>airport_id = 1, airport_name = ''A'', lat = 0, lon = 0\<rparr>,
      \<lparr>airport_id = 2, airport_name = ''B'', lat = 0, lon = 1\<rparr>,
      \<lparr>airport_id = 3, airport_name = ''C'', lat = 1, lon = 0\<rparr>,
      \<lparr>airport_id = 4, airport_name = ''D'', lat = 1, lon = 1\<rparr>]"

definition scenario_routes :: "route_row list" where
  "scenario_routes =
     [\<lparr>route_from = 1, route_to = 2, distance_km = 100, avg_duration_min = 10,
       fuel_cost_l = 20, congestion_factor = 1 / 10\<rparr>,
      \<lparr>route_from = 2, route_to = 4, distance_km = 100, avg_duration_min = 10,
       fuel_cost_l = 20, congestion_factor = 1 / 10\<rparr>,
      \<lparr>route_from = 1, route_to = 3, distance_km = 150, avg_duration_min = 8,
       fuel_cost_l = 25, congestion_factor = 5 / 100\<rparr>,
      \<lparr>route_from = 3, route_to = 4, distance_km = 50, avg_duration_min = 8,
       fuel_cost_l = 15, congestion_factor = 5 / 100\<rparr>]"

definition scenario_graph :: DiGraph where
  "scenario_graph = fst (build_air_route_graph scenario_airports scenario_routes)"

definition unit_weights :: weights where
  "unit_weights = \<lparr>w_distance = 1, w_duration = 1, w_fuel = 1, w_congestion = 1\<rparr>"

text \<open>Weights that count the distance only: under them the two routes tie.\<close>

definition distance_only :: weights where
  "distance_only = \<lparr>w_distance = 1, w_duration = 0, w_fuel = 0, w_congestion = 0\<rparr>"

text \<open>
  Three states of the generator: one that returns one half at every draw, one that
  returns zero at every draw, and one that returns one half eight times and zero from
  then on.
\<close>

definition half_draws :: rng where
  "half_draws = (\<lambda>n. 1 / 2)"

definition zero_draws :: rng where
  "zero_draws = (\<lambda>n. 0)"

definition half_then_zero :: rng where
  "half_then_zero = (\<lambda>n. if n < 8 then 1 / 2 else 0)"

subsection \<open>Graphs on which the double arithmetic shows\<close>

text \<open>
  Four airports and the routes A to B, B to D, A to C and C to D, as in the scenario:
  the two routes through B have the distance \<open>a\<close>, the two through C the distance
  \<open>b\<close>, and every other cost is 0. \<open>huge\<close> is a finite float whose double is
  not: the largest float is just below \<open>2 * huge\<close>.
\<close>

definition diamond_routes :: "real \<Rightarrow> real \<Rightarrow> route_row list" where
  "diamond_routes a b =
     [\<lparr>route_from = 1, route_to = 2, distance_km = a, avg_duration_min = 0,
       fuel_cost_l = 0, congestion_factor = 0\<rparr>,
      \<lparr>route_from = 2, route_to = 4, distance_km = a, avg_duration_min = 0,
       fuel_cost_l = 0, congestion_factor = 0\<rparr>,
      \<lparr>route_from = 1, route_to = 3, distance_km = b, avg_duration_min = 0,
       fuel_cost_l = 0, congestion_factor = 0\<rparr>,
      \<lparr>route_from = 3, route_to = 4, distance_km = b, avg_duration_min = 0,
       fuel_cost_l = 0, congestion_factor = 0\<rparr>]"

definition diamond_graph :: "real \<Rightarrow> real \<Rightarrow> DiGraph" where
  "diamond_graph a b = fst (build_air_route_graph scenario_airports (diamond_routes a b))"

definition huge :: real where
  "huge = 2 ^ 1023"

text \<open>Weights that leave the distance out.\<close>

definition no_distance :: weights where
  "no_distance = \<lparr>w_distance = 0, w_duration = 1, w_fuel = 1, w_congestion = 1\<rparr>"

text \<open>
  The floats that the decimals 0.05, 0.1, 0.2 and 0.3 of a table denote, and the floats
  that the sums below round to: \<open>d03_up\<close> is 0.30000000000000004, \<open>d06\<close> is 0.6,
  \<open>d06_up\<close> is 0.6000000000000001, \<open>d2561\<close> is 256.1 and \<open>d2602\<close> is 260.2.
\<close>

definition d005 :: real where
  "d005 = 3602879701896397 / 2 ^ 56"

definition d01 :: real where
  "d01 = 3602879701896397 / 2 ^ 55"

definition d02 :: real where
  "d02 = 3602879701896397 / 2 ^ 54"

definition d03 :: real where
  "d03 = 5404319552844595 / 2 ^ 54"

definition d03_up :: real where
  "d03_up = 5404319552844596 / 2 ^ 54"

definition d06 :: real where
  "d06 = 5404319552844595 / 2 ^ 53"

definition d06_up :: real where
  "d06_up = 5404319552844596 / 2 ^ 53"

definition d2561 :: real where
  "d2561 = 4505358845974938 / 2 ^ 44"

definition d2602 :: real where
  "d2602 = 4577486808757043 / 2 ^ 44"

text \<open>
  Two routes from 1 to 6 over three legs each, with the distances 0.1, 0.2, 0.3 on the
  first and 0.3, 0.2, 0.1 on the second: the same distances in the opposite order.
\<close>

definition rounding_routes :: "route_row list" where
  "rounding_routes =
     [\<lparr>route_from = 1, route_to = 2, distance_km = d01, avg_duration_min = 0,
       fuel_cost_l = 0, congestion_factor = 0\<rparr>,
      \<lparr>route_from = 2, route_to = 3, distance_km = d02, avg_duration_min = 0,
       fuel_cost_l = 0, congestion_factor = 0\<rparr>,
      \<lparr>route_from = 3, route_to = 6, distance_km = d03, avg_duration_min = 0,
       fuel_cost_l = 0, congestion_factor = 0\<rparr>,
      \<lparr>route_from = 1, route_to = 4, distance_km = d03, avg_duration_min = 0,
       fuel_cost_l = 0, congestion_factor = 0\<rparr>,
      \<lparr>route_from = 4, route_to = 5, distance_km = d02, avg_duration_min = 0,
       fuel_cost_l = 0, congestion_factor = 0\<rparr>,
      \<lparr>route_from = 5, route_to = 6, distance_km = d01, avg_duration_min = 0,
       fuel_cost_l = 0, congestion_factor = 0\<rparr>]"

definition rounding_graph :: DiGraph where
  "rounding_graph = fst (build_air_route_graph [] rounding_routes)"

text \<open>
  The routes of the scenario with the floats that the decimals of its congestion column
  denote; the other costs are whole numbers, which are floats.
\<close>

definition scenario_float_routes :: "route_row list" where
  "scenario_float_routes =
     [\<lparr>route_from = 1, route_to = 2, distance_km = 100, avg_duration_min = 10,
       fuel_cost_l = 20, congestion_factor = d01\<rparr>,
      \<lparr>route_from = 2, route_to = 4, distance_km = 100, avg_duration_min = 10,
       fuel_cost_l = 20, congestion_factor = d01\<rparr>,
      \<lparr>route_from = 1, route_to = 3, distance_km = 150, avg_duration_min = 8,
       fuel_cost_l = 25, congestion_factor = d005\<rparr>,
      \<lparr>route_from = 3, route_to = 4, distance_km = 50, avg_duration_min = 8,
       fuel_cost_l = 15, congestion_factor = d005\<rparr>]"

definition scenario_float_graph :: DiGraph where
  "scenario_float_graph = fst (build_air_route_graph scenario_airports scenario_float_routes)"

subsection \<open>Notions the properties are stated with\<close>

text \<open>
  The edges between the consecutive nodes of a path, \<open>None\<close> when one of them is
  missing; and a simple path from \<open>start\<close> to \<open>finish\<close>: nodes that are distinct,
  each joined to the next by a directed edge.
\<close>

fun path_edges :: "DiGraph \<Rightarrow> int list \<Rightarrow> edge_data list option" where
  "path_edges G (u # v # rest) =
     (case get_edge G u v of
        Inl e \<Rightarrow> None
      | Inr d \<Rightarrow> map_option ((#) d) (path_edges G (v # rest)))"
| "path_edges G path = Some []"

definition simple_path :: "DiGraph \<Rightarrow> int \<Rightarrow> int \<Rightarrow> int list \<Rightarrow> bool" where
  "simple_path G start finish p =
     (p \<noteq> [] \<and> hd p = start \<and> last p = finish \<and> distinct p \<and> path_edges G p \<noteq> None)"

text \<open>
  The generator after \<open>k\<close> draws; the edges of an adjacency dictionary in iteration
  order; and what the weather does to the \<open>k\<close>-th edge of that order, with the draws
  number \<open>2 k\<close> and \<open>2 k + 1\<close>.
\<close>

definition shift :: "rng \<Rightarrow> nat \<Rightarrow> rng" where
  "shift rs k = (\<lambda>n. rs (n + k))"

definition adj_edges :: "(int \<times> (int \<times> edge_data) list) list \<Rightarrow> (int \<times> int \<times> edge_data) list" where
  "adj_edges adj = concat (map (\<lambda>(u, nbrs). map (\<lambda>(v, d). (u, v, d)) nbrs) adj)"

definition perturbed_data :: "rng \<Rightarrow> nat \<Rightarrow> edge_data \<Rightarrow> edge_data" where
  "perturbed_data rs k d =
     d\<lparr>duration := duration d + fst (uniform 0 20 (\<lambda>n. rs (n + 2 * k))),
       congestion := congestion d + fst (uniform 0 (2 / 10) (\<lambda>n. rs (n + (2 * k + 1))))\<rparr>"

text \<open>
  The two dictionaries of a graph have the same keys in the same order: networkx
  adds a node to both at once. The two loop bodies of \<^verbatim>\<open>build_air_route_graph\<close>.
\<close>

definition same_keys :: "DiGraph \<Rightarrow> bool" where
  "same_keys G = (map fst (node_dict G) = map fst (adj_dict G))"

abbreviation add_airport :: "airport_row \<Rightarrow> DiGraph \<Rightarrow> DiGraph" where
  "add_airport \<equiv> \<lambda>row G. add_node G (airport_id row) (airport_attr row)"

abbreviation add_route :: "route_row \<Rightarrow> DiGraph \<Rightarrow> DiGraph" where
  "add_route \<equiv> \<lambda>row G. add_edge G (route_from row) (route_to row) (route_attr row)"

section \<open>Properties\<close>

subsection \<open>Edge lookup and the two summing loops\<close>

lemma get_edge_cases: "get_edge G u v = Inl KeyError \<or> (\<exists>d. get_edge G u v = Inr d)"
  by (simp add: get_edge_def split: option.splits)

lemma get_edge_successors:
  "(\<exists>d. get_edge G u v = Inr d) \<longleftrightarrow> v \<in> set (successors G u)"
proof (cases "map_of (adj_dict G) u")
  case None
  then show ?thesis by (simp add: get_edge_def successors_def)
next
  case (Some nbrs)
  have "(\<exists>d. map_of nbrs v = Some d) \<longleftrightarrow> v \<in> fst ` set nbrs"
    using map_of_eq_None_iff[of nbrs v] by auto
  with Some show ?thesis
    by (auto simp: get_edge_def successors_def split: option.splits)
qed

lemma successor_has_edge: "v \<in> set (successors G u) \<Longrightarrow> \<exists>d. get_edge G u v = Inr d"
  by (simp add: get_edge_successors)

lemma sum_edges_path_edges:
  "sum_edges G p acc =
     (case path_edges G p of
        None \<Rightarrow> Inl KeyError
      | Some es \<Rightarrow>
          Inr \<lparr>total_distance = total_distance acc + sum_list (map weight es),
               total_duration = total_duration acc + sum_list (map duration es),
               total_fuel = total_fuel acc + sum_list (map fuel es),
               total_congestion = total_congestion acc + sum_list (map congestion es)\<rparr>)"
proof (induction G p acc rule: sum_edges.induct)
  case (1 G u v rest tot)
  show ?case
    using get_edge_cases[of G u v] 1
    by (auto split: option.splits simp: algebra_simps)
qed (auto)

lemma analyze_loop_path_edges:
  "analyze_loop G p (a, b, c, d) =
     (case path_edges G p of
        None \<Rightarrow> Inl KeyError
      | Some es \<Rightarrow>
          Inr (a + sum_list (map weight es), b + sum_list (map duration es),
               c + sum_list (map fuel es), d + sum_list (map congestion es)))"
proof (induction G p "(a, b, c, d)" arbitrary: a b c d rule: analyze_loop.induct)
  case (1 G u v rest dsum tsum fsum csum)
  show ?case
    using get_edge_cases[of G u v] 1
    by (auto split: option.splits simp: algebra_simps)
qed (auto)

subsection \<open>The selection loop\<close>

lemma path_score_path_edges:
  "path_score G w p =
     (case path_edges G p of
        None \<Rightarrow> Inl KeyError
      | Some es \<Rightarrow>
          Inr (w_distance w * sum_list (map weight es) + w_duration w * sum_list (map duration es) +
               w_fuel w * sum_list (map fuel es) + w_congestion w * sum_list (map congestion es)))"
  by (simp add: path_score_def sum_edges_path_edges zero_totals_def weighted_sum_def
      split: option.splits)

lemma dijkstra_loop_total:
  assumes "\<forall>q\<in>set ps. path_edges G q \<noteq> None"
  shows "\<exists>rp rs. dijkstra_loop G w ps b bp = Inr (rp, rs)"
  using assms
proof (induction ps arbitrary: b bp)
  case Nil
  then show ?case by simp
next
  case (Cons path paths)
  then obtain es where "path_edges G path = Some es" by auto
  then obtain sc where "path_score G w path = Inr sc"
    by (simp add: path_score_path_edges)
  with Cons show ?case by simp
qed

subsection \<open>The enumeration yields the simple paths\<close>

lemma path_edges_snoc:
  assumes "path_edges G path \<noteq> None"
    and "path \<noteq> [] \<Longrightarrow> c \<in> set (successors G (last path))"
  shows "path_edges G (path @ [c]) \<noteq> None"
  using assms
proof (induction G path rule: path_edges.induct)
  case (1 G u v rest)
  then show ?case by (auto split: sum.splits)
qed (auto dest: successor_has_edge)

lemma dfs_sound:
  assumes "q \<in> set (dfs G target path children)"
    and "path_edges G path \<noteq> None" and "distinct path" and "target \<notin> set path"
    and "path \<noteq> [] \<Longrightarrow> set children \<subseteq> set (successors G (last path))"
  shows "\<exists>ext. q = path @ ext \<and> ext \<noteq> [] \<and> hd ext \<in> set children \<and> last q = target \<and>
               distinct q \<and> path_edges G q \<noteq> None"
  using assms
proof (induction G target path children rule: dfs.induct)
  case (1 G target path)
  then show ?case by simp
next
  case (2 G target path child children)
  show ?case
  proof (cases "child \<in> set path")
    case True
    with "2.prems" have "q \<in> set (dfs G target path children)" by simp
    from "2.IH"(1)[OF True this] "2.prems" show ?thesis by auto
  next
    case notin: False
    show ?thesis
    proof (cases "child = target")
      case True
      with notin "2.prems" consider "q = path @ [child]" | "q \<in> set (dfs G target path children)"
        by auto
      then show ?thesis
      proof cases
        case 1
        have "path_edges G (path @ [child]) \<noteq> None"
          using "2.prems" by (intro path_edges_snoc) auto
        with 1 True notin "2.prems" show ?thesis by auto
      next
        case 2
        from "2.IH"(2)[OF notin True 2] "2.prems" show ?thesis by auto
      qed
    next
      case False
      with notin "2.prems"
      consider "q \<in> set (dfs G target (path @ [child]) (successors G child))"
        | "q \<in> set (dfs G target path children)"
        by auto
      then show ?thesis
      proof cases
        case 1
        have valid: "path_edges G (path @ [child]) \<noteq> None"
          using "2.prems" by (intro path_edges_snoc) auto
        from "2.IH"(3)[OF notin False 1 valid] notin False "2.prems"
        obtain ext where "q = (path @ [child]) @ ext" "ext \<noteq> []" "last q = target"
          "distinct q" "path_edges G q \<noteq> None" by auto
        then show ?thesis by (intro exI[of _ "child # ext"]) auto
      next
        case 2
        from "2.IH"(4)[OF notin False 2] "2.prems" show ?thesis by auto
      qed
    qed
  qed
qed

lemma all_simple_paths_sound:
  assumes "all_simple_paths G start finish = Inr paths" and "q \<in> set paths"
  shows "simple_path G start finish q"
proof -
  from assms have "q \<in> set (dfs G finish [] [start])"
    by (auto simp: all_simple_paths_def split: if_splits)
  from dfs_sound[OF this] show ?thesis
    by (auto simp: simple_path_def)
qed

text \<open>
  Conversely every simple path from the source to the target is enumerated, so the
  enumeration consists of exactly the simple paths.
\<close>

lemma path_edges_mid:
  "path_edges G (xs @ u # v # ys) \<noteq> None \<Longrightarrow> v \<in> set (successors G u)"
proof (induction xs)
  case Nil
  then have "\<exists>d. get_edge G u v = Inr d" by (auto split: sum.splits)
  then show ?case by (simp add: get_edge_successors)
next
  case (Cons x xs)
  obtain y zs where yz: "xs @ u # v # ys = y # zs" by (cases xs) auto
  with Cons.prems have "path_edges G (y # zs) \<noteq> None"
    by (auto split: sum.splits)
  with yz Cons.IH show ?case by simp
qed

lemma dfs_complete:
  assumes "distinct (path @ ext)" and "ext \<noteq> []" and "last ext = target"
    and "path_edges G (path @ ext) \<noteq> None" and "hd ext \<in> set children"
  shows "path @ ext \<in> set (dfs G target path children)"
  using assms
proof (induction G target path children arbitrary: ext rule: dfs.induct)
  case (1 G target path)
  then show ?case by simp
next
  case (2 G target path child children)
  from "2.prems"(2) obtain e ext' where ext: "ext = e # ext'" by (cases ext) auto
  show ?case
  proof (cases "child \<in> set path")
    case True
    with "2.prems"(1) ext have "e \<noteq> child" by auto
    with "2.prems"(5) ext have "hd ext \<in> set children" by simp
    from "2.IH"(1)[OF True "2.prems"(1,2,3,4) this] True show ?thesis by simp
  next
    case notin: False
    show ?thesis
    proof (cases "child = target")
      case True
      show ?thesis
      proof (cases "e = child")
        case e: True
        have "ext' = []"
        proof (rule ccontr)
          assume "ext' \<noteq> []"
          then have "last ext = last ext'" "last ext' \<in> set ext'" using ext by auto
          with "2.prems"(1,3) ext e True show False by auto
        qed
        with ext e notin True show ?thesis by simp
      next
        case False
        with "2.prems"(5) ext have "hd ext \<in> set children" by simp
        from "2.IH"(2)[OF notin True "2.prems"(1,2,3,4) this] notin True show ?thesis by simp
      qed
    next
      case nt: False
      show ?thesis
      proof (cases "e = child")
        case e: True
        have ne: "ext' \<noteq> []" using "2.prems"(3) ext e nt by auto
        then obtain e' ext'' where ext': "ext' = e' # ext''" by (cases ext') auto
        have d: "distinct ((path @ [child]) @ ext')" using "2.prems"(1) ext e by simp
        have l: "last ext' = target" using "2.prems"(3) ext ne by simp
        have v: "path_edges G ((path @ [child]) @ ext') \<noteq> None"
          using "2.prems"(4) ext e by simp
        have "path_edges G (path @ child # e' # ext'') \<noteq> None"
          using "2.prems"(4) ext e ext' by simp
        then have "e' \<in> set (successors G child)" by (rule path_edges_mid)
        then have h: "hd ext' \<in> set (successors G child)" using ext' by simp
        from "2.IH"(3)[OF notin nt d ne l v h] notin nt ext e show ?thesis by simp
      next
        case False
        with "2.prems"(5) ext have "hd ext \<in> set children" by simp
        from "2.IH"(4)[OF notin nt "2.prems"(1,2,3,4) this] notin nt show ?thesis by simp
      qed
    qed
  qed
qed

lemma all_simple_paths_complete:
  assumes "all_simple_paths G start finish = Inr paths"
  shows "set paths = {q. simple_path G start finish q}"
proof -
  from assms have paths: "paths = dfs G finish [] [start]"
    by (auto simp: all_simple_paths_def split: if_splits)
  have "q \<in> set paths" if "simple_path G start finish q" for q
    using that dfs_complete[of "[]" q finish G "[start]"]
    by (simp add: simple_path_def paths)
  with all_simple_paths_sound[OF assms] show ?thesis by auto
qed

lemma dijkstra_same_node:
  assumes "has_node G n"
  shows "dijkstra_multi_objective G n n w = Inr (Some [n], Finite 0)"
  using assms
  by (simp add: dijkstra_multi_objective_def all_simple_paths_def path_score_def
      zero_totals_def weighted_sum_def)

subsection \<open>The scenario, evaluated\<close>

lemma scenario_graph_eq:
  "scenario_graph =
     \<lparr>node_dict =
        [(1, Some \<lparr>name = ''A'', pos = (0, 0)\<rparr>), (2, Some \<lparr>name = ''B'', pos = (0, 1)\<rparr>),
         (3, Some \<lparr>name = ''C'', pos = (1, 0)\<rparr>), (4, Some \<lparr>name = ''D'', pos = (1, 1)\<rparr>)],
      adj_dict =
        [(1, [(2, \<lparr>weight = 100, duration = 10, fuel = 20, congestion = 1 / 10\<rparr>),
              (3, \<lparr>weight = 150, duration = 8, fuel = 25, congestion = 5 / 100\<rparr>)]),
         (2, [(4, \<lparr>weight = 100, duration = 10, fuel = 20, congestion = 1 / 10\<rparr>)]),
         (3, [(4, \<lparr>weight = 50, duration = 8, fuel = 15, congestion = 5 / 100\<rparr>)]),
         (4, [])]\<rparr>"
  by code_simp

lemma scenario_paths: "all_simple_paths scenario_graph 1 4 = Inr [[1, 2, 4], [1, 3, 4]]"
  by (simp add: scenario_graph_eq all_simple_paths_def has_node_def successors_def)

lemma scenario_score_ACD: "path_score scenario_graph unit_weights [1, 3, 4] = Inr (2561 / 10)"
  by (simp add: scenario_graph_eq path_score_def get_edge_def zero_totals_def
      weighted_sum_def unit_weights_def)

lemma scenario_score_ABD: "path_score scenario_graph unit_weights [1, 2, 4] = Inr (2602 / 10)"
  by (simp add: scenario_graph_eq path_score_def get_edge_def zero_totals_def
      weighted_sum_def unit_weights_def)

lemma scenario_dijkstra:
  "dijkstra_multi_objective scenario_graph 1 4 unit_weights
     = Inr (Some [1, 3, 4], Finite (2561 / 10))"
  by (simp add: dijkstra_multi_objective_def scenario_paths scenario_score_ACD
      scenario_score_ABD)


lemma scenario_edges:
  "edges scenario_graph =
     [(1, 2, \<lparr>weight = 100, duration = 10, fuel = 20, congestion = 1 / 10\<rparr>),
      (1, 3, \<lparr>weight = 150, duration = 8, fuel = 25, congestion = 5 / 100\<rparr>),
      (2, 4, \<lparr>weight = 100, duration = 10, fuel = 20, congestion = 1 / 10\<rparr>),
      (3, 4, \<lparr>weight = 50, duration = 8, fuel = 15, congestion = 5 / 100\<rparr>)]"
  by (simp add: scenario_graph_eq edges_def)

lemma scenario_weather:
  "edges (fst (simulate_weather_conditions scenario_graph half_draws)) =
     [(1, 2, \<lparr>weight = 100, duration = 20, fuel = 20, congestion = 2 / 10\<rparr>),
      (1, 3, \<lparr>weight = 150, duration = 18, fuel = 25, congestion = 15 / 100\<rparr>),
      (2, 4, \<lparr>weight = 100, duration = 20, fuel = 20, congestion = 2 / 10\<rparr>),
      (3, 4, \<lparr>weight = 50, duration = 18, fuel = 15, congestion = 15 / 100\<rparr>)]"
  by (simp add: simulate_weather_conditions_def scenario_graph_eq uniform_def
      random_random_def half_draws_def edges_def)

lemma scenario_edges_length: "length (edges scenario_graph) = 4"
  by (simp add: scenario_edges)

lemma scenario_weather_zero:
  "edges (fst (simulate_weather_conditions scenario_graph zero_draws)) =
     [(1, 2, \<lparr>weight = 100, duration = 10, fuel = 20, congestion = 1 / 10\<rparr>),
      (1, 3, \<lparr>weight = 150, duration = 8, fuel = 25, congestion = 5 / 100\<rparr>),
      (2, 4, \<lparr>weight = 100, duration = 10, fuel = 20, congestion = 1 / 10\<rparr>),
      (3, 4, \<lparr>weight = 50, duration = 8, fuel = 15, congestion = 5 / 100\<rparr>)]"
  by (simp add: simulate_weather_conditions_def scenario_graph_eq uniform_def
      random_random_def zero_draws_def edges_def)

text \<open>
  C2. On the four-airport graph as built, with no weather applied and all four weights
  1, the route from A to D that is returned is A, C, D with score 256.1; the other
  route A, B, D scores 260.2, which is strictly more.
\<close>

theorem scenario_best_path:
  "dijkstra_multi_objective scenario_graph 1 4 unit_weights
     = Inr (Some [1, 3, 4], Finite (2561 / 10)) \<and>
   path_score scenario_graph unit_weights [1, 3, 4] = Inr (2561 / 10) \<and>
   path_score scenario_graph unit_weights [1, 2, 4] = Inr (2602 / 10) \<and>
   (2561 / 10 :: real) < 2602 / 10"
  by (simp add: scenario_dijkstra scenario_score_ACD scenario_score_ABD)

subsection \<open>The comparison of floats\<close>

text \<open>
  \<^verbatim>\<open><\<close> on floats is a strict partial order, and NaN is comparable with nothing. Only this
  is used of the arithmetic in the properties of the selection loop: they hold for
  every rounding.
\<close>

lemma flt_irrefl: "\<not> flt a a"
  by (cases a) auto

lemma flt_trans: "flt a b \<Longrightarrow> flt b c \<Longrightarrow> flt a c"
  by (cases a; cases b; cases c) auto

lemma flt_not_fle: "flt a b \<Longrightarrow> \<not> fle b a"
  using flt_trans[of a b a] flt_irrefl by (auto simp: fle_def)

lemma not_flt_fle: "\<not> flt a b \<Longrightarrow> a \<noteq> NaN \<Longrightarrow> b \<noteq> NaN \<Longrightarrow> fle b a"
  by (cases a; cases b) (auto simp: fle_def)

lemma flt_not_NaN: "flt a b \<Longrightarrow> a \<noteq> NaN \<and> b \<noteq> NaN"
  by (cases a; cases b) auto

lemma not_flt_not_fle: "\<not> flt s' b \<Longrightarrow> flt s b \<Longrightarrow> \<not> fle s' s"
  using flt_trans[of s' s b] by (auto simp: fle_def)

subsection \<open>The selection loop in double arithmetic\<close>

lemma sum_edges64_path_edges:
  "sum_edges64 rnd G p tot =
     (case path_edges G p of
        None \<Rightarrow> Inl KeyError
      | Some es \<Rightarrow> Inr (foldl (add_edge64 rnd) tot es))"
proof (induction rnd G p tot rule: sum_edges64.induct)
  case (1 rnd G u v rest tot)
  show ?case
    using get_edge_cases[of G u v] 1
    by (auto split: option.splits)
qed auto

lemma path_score64_path_edges:
  "path_score64 rnd G w p =
     (case path_edges G p of
        None \<Rightarrow> Inl KeyError
      | Some es \<Rightarrow> Inr (weighted_sum64 rnd w (foldl (add_edge64 rnd) zero_totals64 es)))"
  by (simp add: path_score64_def sum_edges64_path_edges split: option.splits)

text \<open>
  What the loop returns, from the best score \<open>b\<close> and the best path \<open>bp\<close> that it
  starts with. Either no path scores below \<open>b\<close> and both are returned as they are; or
  the path \<open>p\<close> returned scores below \<open>b\<close>, no path before it has a score less than
  or equal to its score, and no path after it a score that is less.
\<close>

lemma dijkstra_loop64_result:
  assumes "dijkstra_loop64 rnd G w ps b bp = Inr (rp, rs)"
  shows "(rp = bp \<and> rs = b \<and>
            (\<forall>q\<in>set ps. \<exists>s. path_score64 rnd G w q = Inr s \<and> \<not> flt s b)) \<or>
         (\<exists>pre p post. ps = pre @ p # post \<and> rp = Some p \<and>
            path_score64 rnd G w p = Inr rs \<and> flt rs b \<and>
            (\<forall>q\<in>set pre. \<exists>s'. path_score64 rnd G w q = Inr s' \<and> \<not> fle s' rs) \<and>
            (\<forall>q\<in>set post. \<exists>s'. path_score64 rnd G w q = Inr s' \<and> \<not> flt s' rs))"
  using assms
proof (induction ps arbitrary: b bp)
  case Nil
  then show ?case by simp
next
  case (Cons path paths)
  from Cons.prems obtain sc where sc: "path_score64 rnd G w path = Inr sc"
    by (cases "path_score64 rnd G w path") auto
  let ?found = "\<lambda>ps b pre p post. ps = pre @ p # post \<and> rp = Some p \<and>
            path_score64 rnd G w p = Inr rs \<and> flt rs b \<and>
            (\<forall>q\<in>set pre. \<exists>s'. path_score64 rnd G w q = Inr s' \<and> \<not> fle s' rs) \<and>
            (\<forall>q\<in>set post. \<exists>s'. path_score64 rnd G w q = Inr s' \<and> \<not> flt s' rs)"
  show ?case
  proof (cases "flt sc b")
    case True
    with Cons.prems sc
    have run: "dijkstra_loop64 rnd G w paths sc (Some path) = Inr (rp, rs)" by simp
    from Cons.IH[OF run]
    consider (kept) "rp = Some path" "rs = sc"
        "\<forall>q\<in>set paths. \<exists>s. path_score64 rnd G w q = Inr s \<and> \<not> flt s sc"
      | (later) pre p post where "?found paths sc pre p post"
      by blast
    then show ?thesis
    proof cases
      case kept
      then have "?found (path # paths) b [] path paths"
        using sc True by simp
      then show ?thesis by (intro disjI2 exI)
    next
      case later
      then have lt: "flt rs sc" by simp
      then have "flt rs b" using True by (rule flt_trans)
      moreover have "\<not> fle sc rs" using lt by (rule flt_not_fle)
      ultimately have "?found (path # paths) b (path # pre) p post"
        using later sc by simp
      then show ?thesis by (intro disjI2 exI)
    qed
  next
    case False
    with Cons.prems sc
    have run: "dijkstra_loop64 rnd G w paths b bp = Inr (rp, rs)" by simp
    from Cons.IH[OF run]
    consider (kept) "rp = bp" "rs = b"
        "\<forall>q\<in>set paths. \<exists>s. path_score64 rnd G w q = Inr s \<and> \<not> flt s b"
      | (later) pre p post where "?found paths b pre p post"
      by blast
    then show ?thesis
    proof cases
      case kept
      then show ?thesis using sc False by simp
    next
      case later
      then have "flt rs b" by simp
      with False have "\<not> fle sc rs" by (rule not_flt_not_fle)
      then have "?found (path # paths) b (path # pre) p post"
        using later sc by simp
      then show ?thesis by (intro disjI2 exI)
    qed
  qed
qed

lemma dijkstra_loop64_total:
  assumes "\<forall>q\<in>set ps. path_edges G q \<noteq> None"
  shows "\<exists>rp rs. dijkstra_loop64 rnd G w ps b bp = Inr (rp, rs)"
  using assms
proof (induction ps arbitrary: b bp)
  case Nil
  then show ?case by simp
next
  case (Cons path paths)
  then obtain es where "path_edges G path = Some es" by auto
  then obtain sc where "path_score64 rnd G w path = Inr sc"
    by (simp add: path_score64_path_edges)
  with Cons show ?case by simp
qed

lemma dijkstra64_Some_loop:
  assumes "dijkstra_multi_objective64 rnd G start finish w = Inr (Some p, sc)"
  shows "\<exists>paths. all_simple_paths G start finish = Inr paths \<and>
           dijkstra_loop64 rnd G w paths PInf None = Inr (Some p, sc)"
  using assms
  by (cases "all_simple_paths G start finish")
     (auto simp: dijkstra_multi_objective64_def split: if_splits)

subsection \<open>Without rounding: the exact scorer\<close>

lemma sum_edges64_exact:
  "sum_edges64 Fin G p (to_totals64 t) =
     (case sum_edges G p t of Inl e \<Rightarrow> Inl e | Inr t' \<Rightarrow> Inr (to_totals64 t'))"
proof (induction G p t rule: sum_edges.induct)
  case (1 G u v rest tot)
  show ?case
  proof (cases "get_edge G u v")
    case (Inl e)
    then show ?thesis by simp
  next
    case (Inr edge)
    have "add_edge64 Fin (to_totals64 tot) edge =
            to_totals64 (tot\<lparr>total_distance := total_distance tot + weight edge,
                 total_duration := total_duration tot + duration edge,
                 total_fuel := total_fuel tot + fuel edge,
                 total_congestion := total_congestion tot + congestion edge\<rparr>)"
      by (simp add: add_edge64_def to_totals64_def)
    with Inr 1[OF Inr] show ?thesis by simp
  qed
qed simp_all

lemma path_score64_exact:
  "path_score64 Fin G w p =
     (case path_score G w p of Inl e \<Rightarrow> Inl e | Inr s \<Rightarrow> Inr (Fin s))"
proof -
  have z: "zero_totals64 = to_totals64 zero_totals"
    by (simp add: zero_totals64_def zero_totals_def to_totals64_def)
  have w: "weighted_sum64 Fin w (to_totals64 t) = Fin (weighted_sum w t)" for t
    by (simp add: weighted_sum64_def weighted_sum_def to_totals64_def)
  show ?thesis
    unfolding path_score64_def path_score_def z sum_edges64_exact
    by (simp add: w split: sum.splits)
qed

lemma flt_exact: "flt (Fin s) (to_float64 b) = score_less s b"
  by (cases b) simp_all

lemma dijkstra_loop64_exact:
  "dijkstra_loop64 Fin G w ps (to_float64 b) bp =
     (case dijkstra_loop G w ps b bp of
        Inl e \<Rightarrow> Inl e
      | Inr (p, s) \<Rightarrow> Inr (p, to_float64 s))"
proof (induction ps arbitrary: b bp)
  case Nil
  show ?case by simp
next
  case (Cons path paths)
  show ?case
  proof (cases "path_score G w path")
    case (Inl e)
    then show ?thesis by (simp add: path_score64_exact)
  next
    case (Inr s)
    show ?thesis
      using Cons[of "Finite s" "Some path"] Cons[of b bp] Inr
      by (simp add: path_score64_exact flt_exact)
  qed
qed

lemma dijkstra_multi_objective64_exact:
  "dijkstra_multi_objective64 Fin G start finish w =
     (case dijkstra_multi_objective G start finish w of
        Inl e \<Rightarrow> Inl e
      | Inr (p, s) \<Rightarrow> Inr (p, to_float64 s))"
  using dijkstra_loop64_exact[of G w _ Inf None]
  by (simp add: dijkstra_multi_objective64_def dijkstra_multi_objective_def split: sum.splits)

subsection \<open>The rounding of binary64, evaluated\<close>

text \<open>
  \<open>round64\<close> at a number whose binary exponent \<open>e\<close> is known: the number is scaled
  to 53 bits, rounded to an integer and scaled back.
\<close>

lemma bitlen_between:
  assumes "2 ^ n \<le> k" and "k < 2 ^ (n + 1)"
  shows "bitlen k = int n + 1"
proof -
  have "bitlen k \<le> int n + 1"
    using assms(2) by (simp add: bitlen_le_iff_power nat_add_distrib)
  moreover have "int n + 1 \<le> bitlen k"
    using assms(1) by (simp add: bitlen_ge_iff_power nat_add_distrib)
  ultimately show ?thesis by simp
qed

lemma ulp_exponent_eval:
  assumes "2 powi e \<le> \<bar>x\<bar>" and "\<bar>x\<bar> < 2 powi (e + 1)"
  shows "ulp_exponent x = max e (- 1022) - 52"
proof (cases "- 1074 \<le> e")
  case True
  define n where "n = nat (e + 1074)"
  have e: "e = int n - 1074" using True by (simp add: n_def)
  have lo: "(2::real) ^ n = 2 powi e * 2 ^ 1074"
    unfolding e by (simp add: power_int_diff)
  have hi: "(2::real) ^ (n + 1) = 2 powi (e + 1) * 2 ^ 1074"
    unfolding e by (simp add: power_int_diff power_int_add)
  have "(2::real) ^ n \<le> \<bar>x\<bar> * 2 ^ 1074"
    unfolding lo using assms(1) by (intro mult_right_mono) simp_all
  then have "of_int (2 ^ n) \<le> \<bar>x\<bar> * 2 ^ 1074" by simp
  then have k1: "2 ^ n \<le> \<lfloor>\<bar>x\<bar> * 2 ^ 1074\<rfloor>" by (simp only: le_floor_iff)
  have "\<bar>x\<bar> * 2 ^ 1074 < (2::real) ^ (n + 1)"
    unfolding hi using assms(2) by (intro mult_strict_right_mono) simp_all
  then have "\<bar>x\<bar> * 2 ^ 1074 < of_int (2 ^ (n + 1))" by simp
  then have k2: "\<lfloor>\<bar>x\<bar> * 2 ^ 1074\<rfloor> < 2 ^ (n + 1)" by (simp only: floor_less_iff)
  from bitlen_between[OF k1 k2] show ?thesis
    by (simp add: ulp_exponent_def e)
next
  case False
  then have "e + 1 \<le> - 1074" by simp
  then have "(2::real) powi (e + 1) \<le> 2 powi (- 1074)"
    by (intro power_int_increasing) simp_all
  with assms(2) have "\<bar>x\<bar> < 2 powi (- 1074)" by linarith
  then have "\<bar>x\<bar> * 2 ^ 1074 < 2 powi (- 1074) * 2 ^ 1074"
    by (intro mult_strict_right_mono) simp_all
  also have "2 powi (- 1074) * 2 ^ 1074 = (1::real)"
    by (simp add: power_int_minus)
  finally have "\<lfloor>\<bar>x\<bar> * 2 ^ 1074\<rfloor> = 0"
    by (simp add: floor_eq_iff)
  with False show ?thesis by (simp add: ulp_exponent_def)
qed

lemma round64_eval:
  assumes "2 powi e \<le> \<bar>x\<bar>" and "\<bar>x\<bar> < 2 powi (e + 1)" and "- 1022 \<le> e"
  shows "round64 x =
     (let y = of_int (round_even (x / 2 powi (e - 52))) * 2 powi (e - 52)
      in if 2 ^ 1024 \<le> y then PInf else if y \<le> - (2 ^ 1024) then NInf else Fin y)"
  using ulp_exponent_eval[OF assms(1,2)] assms(3)
  by (simp add: round64_def Let_def max_def)

lemma round_even_int: "round_even (of_int n) = n"
  by (simp add: round_even_def)

lemma round_even_le: "z \<le> of_int n \<Longrightarrow> round_even z \<le> n"
proof -
  assume a: "z \<le> of_int n"
  have f: "\<lfloor>z\<rfloor> \<le> n" using a by (simp add: floor_le_iff)
  show ?thesis
  proof (cases "z = of_int \<lfloor>z\<rfloor>")
    case True
    then have "z - of_int \<lfloor>z\<rfloor> = 0" by simp
    then have "round_even z = \<lfloor>z\<rfloor>" by (simp add: round_even_def Let_def)
    with f show ?thesis by simp
  next
    case False
    then have "of_int \<lfloor>z\<rfloor> < z" using of_int_floor_le[of z] by linarith
    with a have "of_int \<lfloor>z\<rfloor> < (of_int n :: real)" by linarith
    then have "\<lfloor>z\<rfloor> < n" by simp
    then show ?thesis by (simp add: round_even_def Let_def)
  qed
qed

lemma round_even_ge: "of_int n \<le> z \<Longrightarrow> n \<le> round_even z"
proof -
  assume "of_int n \<le> z"
  then have "n \<le> \<lfloor>z\<rfloor>" by (simp add: le_floor_iff)
  then show ?thesis by (simp add: round_even_def Let_def)
qed

lemma round64_at:
  assumes "2 powi e \<le> \<bar>x\<bar>" and "\<bar>x\<bar> < 2 powi (e + 1)" and "- 1022 \<le> e" and "e < 1023"
    and "round_even (x / 2 powi (e - 52)) = m"
  shows "round64 x = Fin (of_int m * 2 powi (e - 52))"
proof -
  let ?u = "(2::real) powi (e - 52)"
  have u: "0 < ?u" by simp
  have up: "(2::real) powi (e + 1) = of_int (2 ^ 53) * ?u"
    by (simp add: power_int_diff power_int_add)
  have "\<bar>x\<bar> / ?u < of_int (2 ^ 53)"
    using assms(2) u unfolding up by (simp add: field_simps)
  then have z: "x / ?u \<le> of_int (2 ^ 53)" "of_int (- (2 ^ 53)) \<le> x / ?u"
    using u by (simp_all add: abs_if field_simps split: if_splits)
  from round_even_le[OF z(1)] round_even_ge[OF z(2)] assms(5)
  have m: "m \<le> 2 ^ 53" "- (2 ^ 53) \<le> m" by simp_all
  then have mr: "real_of_int m \<le> of_int (2 ^ 53)" "of_int (- (2 ^ 53)) \<le> real_of_int m"
    by linarith+
  have "of_int m * ?u \<le> of_int (2 ^ 53) * ?u"
    using mr(1) u by (intro mult_right_mono) simp_all
  moreover have "of_int (- (2 ^ 53)) * ?u \<le> of_int m * ?u"
    using mr(2) u by (intro mult_right_mono) simp_all
  ultimately have y: "of_int m * ?u \<le> 2 powi (e + 1)" "- (2 powi (e + 1)) \<le> of_int m * ?u"
    unfolding up by simp_all
  have "(2::real) powi (e + 1) \<le> 2 powi 1023"
    using assms(4) by (intro power_int_increasing) simp_all
  also have "\<dots> < 2 powi 1024"
    by (intro power_int_strict_increasing) simp_all
  finally have big: "(2::real) powi (e + 1) < 2 ^ 1024" by simp
  have "\<not> 2 ^ 1024 \<le> of_int m * ?u" "\<not> of_int m * ?u \<le> - (2 ^ 1024)"
    using y big by linarith+
  then show ?thesis
    unfolding round64_eval[OF assms(1,2,3)] Let_def assms(5) by simp
qed

lemma round64_zero: "round64 0 = Fin 0"
  by (simp add: round64_def round_even_def Let_def)

lemma round64_power2:
  assumes "n \<le> 1024"
  shows "round64 (2 ^ n) = (if n = 1024 then PInf else Fin (2 ^ n))"
proof -
  have pw: "(2::real) ^ n = 2 powi int n" by simp
  have b1: "(2::real) powi int n \<le> \<bar>2 ^ n\<bar>" by simp
  have b2: "\<bar>(2::real) ^ n\<bar> < 2 powi (int n + 1)"
    by (simp add: power_int_add)
  have scaled: "(2::real) ^ n / 2 powi (int n - 52) = of_int (2 ^ 52)"
    by (simp add: power_int_diff)
  have unscaled: "of_int (2 ^ 52) * (2::real) powi (int n - 52) = 2 ^ n"
    by (simp add: power_int_diff)
  have "(2::real) ^ 1024 \<le> 2 ^ n \<longleftrightarrow> 1024 \<le> n"
    by (rule power_increasing_iff) simp
  then have cmp: "(2::real) ^ 1024 \<le> 2 ^ n \<longleftrightarrow> n = 1024"
    using assms by auto
  have "(0::real) < 2 ^ n" and "(0::real) < 2 ^ 1024" by simp_all
  then have neg: "\<not> (2::real) ^ n \<le> - (2 ^ 1024)" by linarith
  show ?thesis
    unfolding round64_eval[OF b1 b2, simplified] Let_def scaled round_even_int unscaled
    using cmp neg by simp
qed

lemma round64_power2_fin: "n < 1024 \<Longrightarrow> round64 (2 ^ n) = Fin (2 ^ n)"
  using round64_power2[of n] by simp

lemma round64_power2_inf: "n = 1024 \<Longrightarrow> round64 (2 ^ n) = PInf"
  using round64_power2[of n] by simp

lemma round64_huge: "round64 huge = Fin huge" "round64 (2 * huge) = PInf"
proof -
  show "round64 huge = Fin huge"
    unfolding huge_def by (rule round64_power2_fin) simp
  have "2 * huge = 2 ^ Suc 1023"
    unfolding huge_def by (simp only: power_Suc)
  moreover have "round64 (2 ^ Suc 1023) = PInf"
    by (rule round64_power2_inf) simp
  ultimately show "round64 (2 * huge) = PInf"
    by (simp only:)
qed

lemma round64_small: "round64 1 = Fin 1" "round64 2 = Fin 2"
  using round64_power2[of 0] round64_power2[of 1] by simp_all

lemma round64_four: "round64 4 = Fin 4"
  using round64_power2_fin[of 2] by simp

text \<open>
  The decimals of the examples are read as the floats named after them, these floats
  round to themselves, and the sums that occur round as follows.
\<close>

lemmas double_defs = d005_def d01_def d02_def d03_def d03_up_def d06_def d06_up_def
  d2561_def d2602_def

lemma round64_decimal_005: "round64 (5 / 100) = Fin (d005)"
  using round64_at[of "- 5" "5 / 100" 7205759403792794]
  by (simp add: round_even_def Let_def double_defs power_int_minus)

lemma round64_decimal_01: "round64 (1 / 10) = Fin (d01)"
  using round64_at[of "- 4" "1 / 10" 7205759403792794]
  by (simp add: round_even_def Let_def double_defs power_int_minus)

lemma round64_decimal_02: "round64 (2 / 10) = Fin (d02)"
  using round64_at[of "- 3" "2 / 10" 7205759403792794]
  by (simp add: round_even_def Let_def double_defs power_int_minus)

lemma round64_decimal_03: "round64 (3 / 10) = Fin (d03)"
  using round64_at[of "- 2" "3 / 10" 5404319552844595]
  by (simp add: round_even_def Let_def double_defs power_int_minus)

lemma round64_decimal_2561: "round64 (2561 / 10) = Fin (d2561)"
  using round64_at[of 8 "2561 / 10" 4505358845974938]
  by (simp add: round_even_def Let_def double_defs power_int_minus)

lemma round64_decimal_2602: "round64 (2602 / 10) = Fin (d2602)"
  using round64_at[of 8 "2602 / 10" 4577486808757043]
  by (simp add: round_even_def Let_def double_defs power_int_minus)

lemma round64_d005: "round64 (d005) = Fin (d005)"
  using round64_at[of "- 5" "d005" 7205759403792794]
  by (simp add: round_even_def Let_def double_defs power_int_minus)

lemma round64_d01: "round64 (d01) = Fin (d01)"
  using round64_at[of "- 4" "d01" 7205759403792794]
  by (simp add: round_even_def Let_def double_defs power_int_minus)

lemma round64_d02: "round64 (d02) = Fin (d02)"
  using round64_at[of "- 3" "d02" 7205759403792794]
  by (simp add: round_even_def Let_def double_defs power_int_minus)

lemma round64_d03: "round64 (d03) = Fin (d03)"
  using round64_at[of "- 2" "d03" 5404319552844595]
  by (simp add: round_even_def Let_def double_defs power_int_minus)

lemma round64_d03_up: "round64 (d03_up) = Fin (d03_up)"
  using round64_at[of "- 2" "d03_up" 5404319552844596]
  by (simp add: round_even_def Let_def double_defs power_int_minus)

lemma round64_d06: "round64 (d06) = Fin (d06)"
  using round64_at[of "- 1" "d06" 5404319552844595]
  by (simp add: round_even_def Let_def double_defs power_int_minus)

lemma round64_d06_up: "round64 (d06_up) = Fin (d06_up)"
  using round64_at[of "- 1" "d06_up" 5404319552844596]
  by (simp add: round_even_def Let_def double_defs power_int_minus)

lemma round64_d2561: "round64 (d2561) = Fin (d2561)"
  using round64_at[of 8 "d2561" 4505358845974938]
  by (simp add: round_even_def Let_def double_defs power_int_minus)

lemma round64_d2602: "round64 (d2602) = Fin (d2602)"
  using round64_at[of 8 "d2602" 4577486808757043]
  by (simp add: round_even_def Let_def double_defs power_int_minus)

lemma round64_d01_d02: "round64 (d01 + d02) = Fin (d03_up)"
  using round64_at[of "- 2" "d01 + d02" 5404319552844596]
  by (simp add: round_even_def Let_def double_defs power_int_minus)

lemma round64_d03_up_d03: "round64 (d03_up + d03) = Fin (d06_up)"
  using round64_at[of "- 1" "d03_up + d03" 5404319552844596]
  by (simp add: round_even_def Let_def double_defs power_int_minus)

lemma round64_d03_d02: "round64 (d03 + d02) = Fin (1 / 2)"
  using round64_at[of "- 1" "d03 + d02" 4503599627370496]
  by (simp add: round_even_def Let_def double_defs power_int_minus)

lemma round64_half_d01: "round64 (1 / 2 + d01) = Fin (d06)"
  using round64_at[of "- 1" "1 / 2 + d01" 5404319552844595]
  by (simp add: round_even_def Let_def double_defs power_int_minus)

lemma round64_twice_d005: "round64 (2 * d005) = Fin (d01)"
  using round64_at[of "- 4" "2 * d005" 7205759403792794]
  by (simp add: round_even_def Let_def double_defs power_int_minus)

lemma round64_twice_d01: "round64 (2 * d01) = Fin (d02)"
  using round64_at[of "- 3" "2 * d01" 7205759403792794]
  by (simp add: round_even_def Let_def double_defs power_int_minus)

lemma round64_256_d01: "round64 (256 + d01) = Fin (d2561)"
  using round64_at[of 8 "256 + d01" 4505358845974938]
  by (simp add: round_even_def Let_def double_defs power_int_minus)

lemma round64_260_d02: "round64 (260 + d02) = Fin (d2602)"
  using round64_at[of 8 "260 + d02" 4577486808757043]
  by (simp add: round_even_def Let_def double_defs power_int_minus)

lemma round64_8: "round64 (8) = Fin (8)"
  using round64_at[of 3 "8" 4503599627370496]
  by (simp add: round_even_def Let_def double_defs power_int_minus)

lemma round64_10: "round64 (10) = Fin (10)"
  using round64_at[of 3 "10" 5629499534213120]
  by (simp add: round_even_def Let_def double_defs power_int_minus)

lemma round64_16: "round64 (16) = Fin (16)"
  using round64_at[of 4 "16" 4503599627370496]
  by (simp add: round_even_def Let_def double_defs power_int_minus)

lemma round64_20: "round64 (20) = Fin (20)"
  using round64_at[of 4 "20" 5629499534213120]
  by (simp add: round_even_def Let_def double_defs power_int_minus)

lemma round64_25: "round64 (25) = Fin (25)"
  using round64_at[of 4 "25" 7036874417766400]
  by (simp add: round_even_def Let_def double_defs power_int_minus)

lemma round64_40: "round64 (40) = Fin (40)"
  using round64_at[of 5 "40" 5629499534213120]
  by (simp add: round_even_def Let_def double_defs power_int_minus)

lemma round64_100: "round64 (100) = Fin (100)"
  using round64_at[of 6 "100" 7036874417766400]
  by (simp add: round_even_def Let_def double_defs power_int_minus)

lemma round64_150: "round64 (150) = Fin (150)"
  using round64_at[of 7 "150" 5277655813324800]
  by (simp add: round_even_def Let_def double_defs power_int_minus)

lemma round64_200: "round64 (200) = Fin (200)"
  using round64_at[of 7 "200" 7036874417766400]
  by (simp add: round_even_def Let_def double_defs power_int_minus)

lemma round64_216: "round64 (216) = Fin (216)"
  using round64_at[of 7 "216" 7599824371187712]
  by (simp add: round_even_def Let_def double_defs power_int_minus)

lemma round64_220: "round64 (220) = Fin (220)"
  using round64_at[of 7 "220" 7740561859543040]
  by (simp add: round_even_def Let_def double_defs power_int_minus)

lemma round64_256: "round64 (256) = Fin (256)"
  using round64_at[of 8 "256" 4503599627370496]
  by (simp add: round_even_def Let_def double_defs power_int_minus)

lemma round64_260: "round64 (260) = Fin (260)"
  using round64_at[of 8 "260" 4573968371548160]
  by (simp add: round_even_def Let_def double_defs power_int_minus)

lemma d06_less: "d06 < d06_up"
  by (simp add: double_defs)

lemma d2561_less: "d2561 < d2602"
  by (simp add: double_defs)

subsection \<open>The graphs of the examples, evaluated\<close>

lemma diamond_graph_eq:
  "diamond_graph a b =
     \<lparr>node_dict =
        [(1, Some \<lparr>name = ''A'', pos = (0, 0)\<rparr>), (2, Some \<lparr>name = ''B'', pos = (0, 1)\<rparr>),
         (3, Some \<lparr>name = ''C'', pos = (1, 0)\<rparr>), (4, Some \<lparr>name = ''D'', pos = (1, 1)\<rparr>)],
      adj_dict =
        [(1, [(2, \<lparr>weight = a, duration = 0, fuel = 0, congestion = 0\<rparr>),
              (3, \<lparr>weight = b, duration = 0, fuel = 0, congestion = 0\<rparr>)]),
         (2, [(4, \<lparr>weight = a, duration = 0, fuel = 0, congestion = 0\<rparr>)]),
         (3, [(4, \<lparr>weight = b, duration = 0, fuel = 0, congestion = 0\<rparr>)]),
         (4, [])]\<rparr>"
  unfolding diamond_graph_def build_air_route_graph_def scenario_airports_def
    diamond_routes_def empty_DiGraph_def Let_def fold_simps
  by (simp add: add_node_def add_edge_def ensure_node_def route_attr_def airport_attr_def)

lemma diamond_paths: "all_simple_paths (diamond_graph a b) 1 4 = Inr [[1, 2, 4], [1, 3, 4]]"
  by (simp add: diamond_graph_eq all_simple_paths_def has_node_def successors_def)

lemma diamond_scores:
  "path_score64 rnd (diamond_graph a b) w [1, 2, 4] =
     Inr (weighted_sum64 rnd w
       \<lparr>distance64 = fadd rnd (fadd rnd (Fin 0) (Fin a)) (Fin a),
        duration64 = fadd rnd (fadd rnd (Fin 0) (Fin 0)) (Fin 0),
        fuel64 = fadd rnd (fadd rnd (Fin 0) (Fin 0)) (Fin 0),
        congestion64 = fadd rnd (fadd rnd (Fin 0) (Fin 0)) (Fin 0)\<rparr>)"
  "path_score64 rnd (diamond_graph a b) w [1, 3, 4] =
     Inr (weighted_sum64 rnd w
       \<lparr>distance64 = fadd rnd (fadd rnd (Fin 0) (Fin b)) (Fin b),
        duration64 = fadd rnd (fadd rnd (Fin 0) (Fin 0)) (Fin 0),
        fuel64 = fadd rnd (fadd rnd (Fin 0) (Fin 0)) (Fin 0),
        congestion64 = fadd rnd (fadd rnd (Fin 0) (Fin 0)) (Fin 0)\<rparr>)"
  by (simp_all add: diamond_graph_eq path_score64_def get_edge_def zero_totals64_def
      add_edge64_def)

text \<open>
  Distinct scores: the routes through B cost 2 each and those through C cost 1 each.
  A tie: every route costs 1.
\<close>

lemma cheaper_scores:
  "path_score64 round64 (diamond_graph 2 1) unit_weights [1, 2, 4] = Inr (Fin 4)"
  "path_score64 round64 (diamond_graph 2 1) unit_weights [1, 3, 4] = Inr (Fin 2)"
  by (simp_all add: diamond_scores weighted_sum64_def unit_weights_def round64_small
      round64_four round64_zero)

lemma cheaper_dijkstra:
  "dijkstra_multi_objective64 round64 (diamond_graph 2 1) 1 4 unit_weights
     = Inr (Some [1, 3, 4], Fin 2)"
  by (simp add: dijkstra_multi_objective64_def diamond_paths cheaper_scores)

lemma tie_scores:
  "path_score64 round64 (diamond_graph 1 1) unit_weights [1, 2, 4] = Inr (Fin 2)"
  "path_score64 round64 (diamond_graph 1 1) unit_weights [1, 3, 4] = Inr (Fin 2)"
  by (simp_all add: diamond_scores weighted_sum64_def unit_weights_def round64_small
      round64_zero)

lemma tie_dijkstra:
  "dijkstra_multi_objective64 round64 (diamond_graph 1 1) 1 4 unit_weights
     = Inr (Some [1, 2, 4], Fin 2)"
  by (simp add: dijkstra_multi_objective64_def diamond_paths tie_scores)

text \<open>
  Overflow: every route has the distance \<open>huge\<close>. The distance of either path is
  \<open>huge + huge\<close>, which rounds to infinity, and so does its score; \<^verbatim>\<open>inf < inf\<close> is
  false for both, and no path is returned.
\<close>

lemma overflow_scores:
  "path_score64 round64 (diamond_graph huge huge) unit_weights [1, 2, 4] = Inr PInf"
  "path_score64 round64 (diamond_graph huge huge) unit_weights [1, 3, 4] = Inr PInf"
  by (simp_all add: diamond_scores weighted_sum64_def unit_weights_def round64_huge
      round64_zero)

lemma overflow_dijkstra:
  "dijkstra_multi_objective64 round64 (diamond_graph huge huge) 1 4 unit_weights
     = Inr (None, PInf)"
  by (simp add: dijkstra_multi_objective64_def diamond_paths overflow_scores)

text \<open>
  NaN: the routes through B have the distance \<open>huge\<close>, those through C the distance
  0, and the weight of the distance is 0. The path through B has the distance infinity
  and the score \<^verbatim>\<open>0 * inf\<close>, which is NaN; it is never the best path, and the path
  through C is returned with the score 0.
\<close>

lemma nan_scores:
  "path_score64 round64 (diamond_graph huge 0) no_distance [1, 2, 4] = Inr NaN"
  "path_score64 round64 (diamond_graph huge 0) no_distance [1, 3, 4] = Inr (Fin 0)"
  by (simp_all add: diamond_scores weighted_sum64_def no_distance_def round64_huge
      round64_zero)

lemma nan_dijkstra:
  "dijkstra_multi_objective64 round64 (diamond_graph huge 0) 1 4 no_distance
     = Inr (Some [1, 3, 4], Fin 0)"
  by (simp add: dijkstra_multi_objective64_def diamond_paths nan_scores)

text \<open>
  Rounding: the distances 0.1, 0.2, 0.3 add up to 0.6000000000000001 in this order and
  to 0.6 in the opposite order. Under weights that count the distance only, the second
  path enumerated is strictly cheaper in double arithmetic and is returned; in exact
  arithmetic the two paths tie and the first one is returned.
\<close>

lemma rounding_graph_eq:
  "rounding_graph =
     \<lparr>node_dict = [(1, None), (2, None), (3, None), (6, None), (4, None), (5, None)],
      adj_dict =
        [(1, [(2, \<lparr>weight = d01, duration = 0, fuel = 0, congestion = 0\<rparr>),
              (4, \<lparr>weight = d03, duration = 0, fuel = 0, congestion = 0\<rparr>)]),
         (2, [(3, \<lparr>weight = d02, duration = 0, fuel = 0, congestion = 0\<rparr>)]),
         (3, [(6, \<lparr>weight = d03, duration = 0, fuel = 0, congestion = 0\<rparr>)]),
         (6, []),
         (4, [(5, \<lparr>weight = d02, duration = 0, fuel = 0, congestion = 0\<rparr>)]),
         (5, [(6, \<lparr>weight = d01, duration = 0, fuel = 0, congestion = 0\<rparr>)])]\<rparr>"
  unfolding rounding_graph_def build_air_route_graph_def rounding_routes_def
    empty_DiGraph_def Let_def fold_simps
  by (simp add: add_node_def add_edge_def ensure_node_def route_attr_def airport_attr_def)

lemma rounding_paths:
  "all_simple_paths rounding_graph 1 6 = Inr [[1, 2, 3, 6], [1, 4, 5, 6]]"
  by (simp add: rounding_graph_eq all_simple_paths_def has_node_def successors_def)

lemma rounding_scores64:
  "path_score64 round64 rounding_graph distance_only [1, 2, 3, 6] = Inr (Fin d06_up)"
  "path_score64 round64 rounding_graph distance_only [1, 4, 5, 6] = Inr (Fin d06)"
  by (simp_all add: rounding_graph_eq path_score64_def get_edge_def zero_totals64_def
      add_edge64_def weighted_sum64_def distance_only_def round64_zero round64_d01
      round64_d03 round64_d01_d02 round64_d03_up_d03 round64_d03_d02 round64_half_d01
      round64_d06 round64_d06_up)

lemma rounding_scores:
  "path_score rounding_graph distance_only [1, 2, 3, 6] = Inr (d01 + d02 + d03)"
  "path_score rounding_graph distance_only [1, 4, 5, 6] = Inr (d03 + d02 + d01)"
  by (simp_all add: rounding_graph_eq path_score_def get_edge_def zero_totals_def
      weighted_sum_def distance_only_def)

lemma rounding_changes_the_choice:
  "dijkstra_multi_objective64 round64 rounding_graph 1 6 distance_only
     = Inr (Some [1, 4, 5, 6], Fin d06) \<and>
   dijkstra_multi_objective rounding_graph 1 6 distance_only
     = Inr (Some [1, 2, 3, 6], Finite (d01 + d02 + d03))"
  by (simp add: dijkstra_multi_objective64_def dijkstra_multi_objective_def rounding_paths
      rounding_scores64 rounding_scores d06_less)

text \<open>
  The scenario in double arithmetic, all four weights 1: the route A, C, D scores the
  float 256.1, the route A, B, D the float 260.2, and A, C, D is returned, as in exact
  arithmetic (\<open>scenario_best_path\<close>).
\<close>

lemma scenario_float_graph_eq:
  "scenario_float_graph =
     \<lparr>node_dict =
        [(1, Some \<lparr>name = ''A'', pos = (0, 0)\<rparr>), (2, Some \<lparr>name = ''B'', pos = (0, 1)\<rparr>),
         (3, Some \<lparr>name = ''C'', pos = (1, 0)\<rparr>), (4, Some \<lparr>name = ''D'', pos = (1, 1)\<rparr>)],
      adj_dict =
        [(1, [(2, \<lparr>weight = 100, duration = 10, fuel = 20, congestion = d01\<rparr>),
              (3, \<lparr>weight = 150, duration = 8, fuel = 25, congestion = d005\<rparr>)]),
         (2, [(4, \<lparr>weight = 100, duration = 10, fuel = 20, congestion = d01\<rparr>)]),
         (3, [(4, \<lparr>weight = 50, duration = 8, fuel = 15, congestion = d005\<rparr>)]),
         (4, [])]\<rparr>"
  unfolding scenario_float_graph_def build_air_route_graph_def scenario_airports_def
    scenario_float_routes_def empty_DiGraph_def Let_def fold_simps
  by (simp add: add_node_def add_edge_def ensure_node_def route_attr_def airport_attr_def)

lemma scenario_float_paths:
  "all_simple_paths scenario_float_graph 1 4 = Inr [[1, 2, 4], [1, 3, 4]]"
  by (simp add: scenario_float_graph_eq all_simple_paths_def has_node_def successors_def)

lemma scenario_float_scores:
  "path_score64 round64 scenario_float_graph unit_weights [1, 3, 4] = Inr (Fin d2561)"
  "path_score64 round64 scenario_float_graph unit_weights [1, 2, 4] = Inr (Fin d2602)"
  by (simp_all add: scenario_float_graph_eq path_score64_def get_edge_def zero_totals64_def
      add_edge64_def weighted_sum64_def unit_weights_def round64_d005 round64_d01
      round64_d02 round64_twice_d005 round64_twice_d01 round64_256_d01 round64_260_d02
      round64_8 round64_10 round64_16 round64_20 round64_25 round64_40 round64_100
      round64_150 round64_200 round64_216 round64_220 round64_256 round64_260)

lemma scenario_float_dijkstra:
  "dijkstra_multi_objective64 round64 scenario_float_graph 1 4 unit_weights
     = Inr (Some [1, 3, 4], Fin d2561)"
  by (simp add: dijkstra_multi_objective64_def scenario_float_paths scenario_float_scores
      d2561_less)

subsection \<open>The path returned is not beaten, and is the first that is not\<close>

text \<open>
  C1, as the code has it. The numbers are floats. Whenever
  \<^verbatim>\<open>dijkstra_multi_objective\<close> returns a path, the enumeration succeeded and the path is
  one of the enumerated paths; its score is the weighted sum of the four sums of its
  edges' attributes (distance, duration, fuel, congestion), every sum and product
  rounded, in the order of the code; the score is below infinity; no enumerated path has
  a score that is less; and the score is less than or equal to the score of every
  enumerated path whose score is not NaN. This holds for every rounding \<open>rnd\<close>, that
  of binary64 and the exact one among them.
\<close>

theorem best_path_not_beaten:
  assumes "dijkstra_multi_objective64 rnd G start finish w = Inr (Some p, sc)"
  shows "\<exists>paths es. all_simple_paths G start finish = Inr paths \<and> p \<in> set paths \<and>
           path_edges G p = Some es \<and>
           sc = weighted_sum64 rnd w (foldl (add_edge64 rnd) zero_totals64 es) \<and>
           flt sc PInf \<and>
           (\<forall>q\<in>set paths. \<exists>s'. path_score64 rnd G w q = Inr s' \<and> \<not> flt s' sc \<and>
               (s' = NaN \<or> fle sc s'))"
proof -
  from dijkstra64_Some_loop[OF assms] obtain paths
    where paths: "all_simple_paths G start finish = Inr paths"
      and run: "dijkstra_loop64 rnd G w paths PInf None = Inr (Some p, sc)" by blast
  from dijkstra_loop64_result[OF run] obtain pre post
    where split: "paths = pre @ p # post"
      and p: "path_score64 rnd G w p = Inr sc" and below: "flt sc PInf"
      and pre: "\<forall>q\<in>set pre. \<exists>s'. path_score64 rnd G w q = Inr s' \<and> \<not> fle s' sc"
      and post: "\<forall>q\<in>set post. \<exists>s'. path_score64 rnd G w q = Inr s' \<and> \<not> flt s' sc"
    by auto
  from p obtain es where es: "path_edges G p = Some es"
    and s: "sc = weighted_sum64 rnd w (foldl (add_edge64 rnd) zero_totals64 es)"
    by (auto simp: path_score64_path_edges split: option.splits)
  from below have nn: "sc \<noteq> NaN" using flt_not_NaN by blast
  have "\<forall>q\<in>set paths. \<exists>s'. path_score64 rnd G w q = Inr s' \<and> \<not> flt s' sc \<and>
               (s' = NaN \<or> fle sc s')"
  proof
    fix q assume "q \<in> set paths"
    with split consider "q \<in> set pre" | "q = p" | "q \<in> set post" by auto
    then obtain s' where s': "path_score64 rnd G w q = Inr s'" "\<not> flt s' sc"
    proof cases
      case 1
      with pre obtain s' where "path_score64 rnd G w q = Inr s'" "\<not> fle s' sc" by auto
      then show ?thesis using that by (auto simp: fle_def)
    next
      case 2
      with p flt_irrefl show ?thesis using that by simp
    next
      case 3
      with post show ?thesis using that by auto
    qed
    moreover have "s' = NaN \<or> fle sc s'"
      using s'(2) nn not_flt_fle by blast
    ultimately show "\<exists>s'. path_score64 rnd G w q = Inr s' \<and> \<not> flt s' sc \<and>
               (s' = NaN \<or> fle sc s')" by blast
  qed
  moreover have "p \<in> set paths" using split by simp
  ultimately show ?thesis using paths es s below by blast
qed

text \<open>
  An instance, with the rounding of binary64: the routes through B cost 2 each, those
  through C cost 1 each, and the path through C is returned with the score 2.
\<close>

theorem best_path_not_beaten_witness:
  "dijkstra_multi_objective64 round64 (diamond_graph 2 1) 1 4 unit_weights
     = Inr (Some [1, 3, 4], Fin 2) \<and>
   (\<exists>paths es. all_simple_paths (diamond_graph 2 1) 1 4 = Inr paths \<and>
      [1, 3, 4] \<in> set paths \<and> path_edges (diamond_graph 2 1) [1, 3, 4] = Some es \<and>
      Fin 2 = weighted_sum64 round64 unit_weights
                (foldl (add_edge64 round64) zero_totals64 es) \<and>
      flt (Fin 2) PInf \<and>
      (\<forall>q\<in>set paths. \<exists>s'. path_score64 round64 (diamond_graph 2 1) unit_weights q = Inr s' \<and>
         \<not> flt s' (Fin 2) \<and> (s' = NaN \<or> fle (Fin 2) s')))"
  using cheaper_dijkstra best_path_not_beaten[OF cheaper_dijkstra] by (rule conjI)

text \<open>
  C1, as claimed, fails: the score returned is not less than or equal to the score of
  every enumerated path. On the graph whose routes through B have the distance
  \<open>huge\<close>, under weights with 0 for the distance, the path through C is returned with
  the score 0, the path through B scores NaN, and \<^verbatim>\<open>0 <= nan\<close> is false.
\<close>

theorem nan_score_counterexample:
  "all_simple_paths (diamond_graph huge 0) 1 4 = Inr [[1, 2, 4], [1, 3, 4]] \<and>
   dijkstra_multi_objective64 round64 (diamond_graph huge 0) 1 4 no_distance
     = Inr (Some [1, 3, 4], Fin 0) \<and>
   path_score64 round64 (diamond_graph huge 0) no_distance [1, 2, 4] = Inr NaN \<and>
   \<not> fle (Fin 0) NaN"
  by (simp add: diamond_paths nan_dijkstra nan_scores fle_def)

text \<open>
  C6, as the code has it. The numbers are floats. Whenever the enumeration succeeds,
  either no enumerated path scores below infinity and the function returns no path and
  the score infinity; or it returns a path \<open>p\<close> of the enumeration with its score,
  which is below infinity, no path enumerated before \<open>p\<close> has a score less than or
  equal to that of \<open>p\<close> (each is strictly larger, or NaN), and no path enumerated
  after \<open>p\<close> has a score that is less: of several paths with the same least score
  the first one enumerated is returned. This holds for every rounding \<open>rnd\<close>.
\<close>

theorem first_unbeaten_path_returned:
  assumes "all_simple_paths G start finish = Inr paths"
  shows "(dijkstra_multi_objective64 rnd G start finish w = Inr (None, PInf) \<and>
            (\<forall>q\<in>set paths. \<exists>s. path_score64 rnd G w q = Inr s \<and> \<not> flt s PInf)) \<or>
         (\<exists>pre p post s. paths = pre @ p # post \<and>
            dijkstra_multi_objective64 rnd G start finish w = Inr (Some p, s) \<and>
            path_score64 rnd G w p = Inr s \<and> flt s PInf \<and>
            (\<forall>q\<in>set pre. \<exists>s'. path_score64 rnd G w q = Inr s' \<and> \<not> fle s' s) \<and>
            (\<forall>q\<in>set post. \<exists>s'. path_score64 rnd G w q = Inr s' \<and> \<not> flt s' s))"
proof -
  have "\<forall>q\<in>set paths. path_edges G q \<noteq> None"
    using all_simple_paths_sound[OF assms] by (simp add: simple_path_def)
  from dijkstra_loop64_total[OF this] obtain rp rs
    where run: "dijkstra_loop64 rnd G w paths PInf None = Inr (rp, rs)" by blast
  have d: "dijkstra_multi_objective64 rnd G start finish w = Inr (rp, rs)"
    using assms run by (simp add: dijkstra_multi_objective64_def)
  from dijkstra_loop64_result[OF run]
  consider (kept) "rp = None" "rs = PInf"
      "\<forall>q\<in>set paths. \<exists>s. path_score64 rnd G w q = Inr s \<and> \<not> flt s PInf"
    | (found) pre p post where "paths = pre @ p # post" "rp = Some p"
        "path_score64 rnd G w p = Inr rs" "flt rs PInf"
        "\<forall>q\<in>set pre. \<exists>s'. path_score64 rnd G w q = Inr s' \<and> \<not> fle s' rs"
        "\<forall>q\<in>set post. \<exists>s'. path_score64 rnd G w q = Inr s' \<and> \<not> flt s' rs"
    by blast
  then show ?thesis
  proof cases
    case kept
    with d show ?thesis by simp
  next
    case found
    with d have "paths = pre @ p # post \<and>
            dijkstra_multi_objective64 rnd G start finish w = Inr (Some p, rs) \<and>
            path_score64 rnd G w p = Inr rs \<and> flt rs PInf \<and>
            (\<forall>q\<in>set pre. \<exists>s'. path_score64 rnd G w q = Inr s' \<and> \<not> fle s' rs) \<and>
            (\<forall>q\<in>set post. \<exists>s'. path_score64 rnd G w q = Inr s' \<and> \<not> flt s' rs)"
      by simp
    then show ?thesis by (intro disjI2 exI)
  qed
qed

text \<open>
  An instance, with the rounding of binary64: every route costs 1, both paths score 2,
  and the first one enumerated, through B, is returned.
\<close>

theorem first_unbeaten_path_returned_witness:
  "all_simple_paths (diamond_graph 1 1) 1 4 = Inr [[1, 2, 4], [1, 3, 4]] \<and>
   path_score64 round64 (diamond_graph 1 1) unit_weights [1, 2, 4] = Inr (Fin 2) \<and>
   path_score64 round64 (diamond_graph 1 1) unit_weights [1, 3, 4] = Inr (Fin 2) \<and>
   dijkstra_multi_objective64 round64 (diamond_graph 1 1) 1 4 unit_weights
     = Inr (Some [1, 2, 4], Fin 2) \<and>
   ((dijkstra_multi_objective64 round64 (diamond_graph 1 1) 1 4 unit_weights
       = Inr (None, PInf) \<and>
     (\<forall>q\<in>set [[1, 2, 4], [1, 3, 4]].
        \<exists>s. path_score64 round64 (diamond_graph 1 1) unit_weights q = Inr s \<and>
            \<not> flt s PInf)) \<or>
    (\<exists>pre p post s. [[1, 2, 4], [1, 3, 4]] = pre @ p # post \<and>
       dijkstra_multi_objective64 round64 (diamond_graph 1 1) 1 4 unit_weights
         = Inr (Some p, s) \<and>
       path_score64 round64 (diamond_graph 1 1) unit_weights p = Inr s \<and> flt s PInf \<and>
       (\<forall>q\<in>set pre. \<exists>s'. path_score64 round64 (diamond_graph 1 1) unit_weights q = Inr s' \<and>
          \<not> fle s' s) \<and>
       (\<forall>q\<in>set post. \<exists>s'. path_score64 round64 (diamond_graph 1 1) unit_weights q = Inr s' \<and>
          \<not> flt s' s)))"
  using diamond_paths[of 1 1] tie_scores tie_dijkstra
    first_unbeaten_path_returned[OF diamond_paths, of round64 1 1 unit_weights]
  by (intro conjI)

text \<open>
  C6, as claimed, fails when the least score is infinity. Every route has the distance
  \<open>huge\<close>, all four weights are 1: the two enumerated paths have the same score,
  infinity, which is the least, and the function returns no path at all.
\<close>

theorem all_scores_infinite_counterexample:
  "all_simple_paths (diamond_graph huge huge) 1 4 = Inr [[1, 2, 4], [1, 3, 4]] \<and>
   path_score64 round64 (diamond_graph huge huge) unit_weights [1, 2, 4] = Inr PInf \<and>
   path_score64 round64 (diamond_graph huge huge) unit_weights [1, 3, 4] = Inr PInf \<and>
   dijkstra_multi_objective64 round64 (diamond_graph huge huge) 1 4 unit_weights
     = Inr (None, PInf)"
  by (simp add: diamond_paths overflow_scores overflow_dijkstra)

subsection \<open>No route, and nodes that are not in the graph\<close>

text \<open>
  When both nodes are in the graph the function returns, whatever the graph; and when
  there is no simple path between them it returns no path and an infinite score.
\<close>

lemma dijkstra_present_returns:
  assumes "has_node G start" and "has_node G finish"
  shows "\<exists>rp rs. dijkstra_multi_objective G start finish w = Inr (rp, rs)"
proof -
  from assms have paths: "all_simple_paths G start finish = Inr (dfs G finish [] [start])"
    by (simp add: all_simple_paths_def)
  have "\<forall>q\<in>set (dfs G finish [] [start]). path_edges G q \<noteq> None"
    using all_simple_paths_sound[OF paths] by (simp add: simple_path_def)
  from dijkstra_loop_total[OF this] paths show ?thesis
    by (simp add: dijkstra_multi_objective_def)
qed

lemma dijkstra_no_path:
  assumes "has_node G start" and "has_node G finish"
    and "\<not> (\<exists>q. simple_path G start finish q)"
  shows "dijkstra_multi_objective G start finish w = Inr (None, Inf)"
proof -
  from assms have paths: "all_simple_paths G start finish = Inr (dfs G finish [] [start])"
    by (simp add: all_simple_paths_def)
  have "dfs G finish [] [start] = []"
  proof (cases "dfs G finish [] [start]")
    case (Cons q qs)
    then have "q \<in> set (dfs G finish [] [start])" by simp
    from all_simple_paths_sound[OF paths this] assms(3) show ?thesis by blast
  qed simp
  with paths show ?thesis by (simp add: dijkstra_multi_objective_def)
qed



subsection \<open>analyze_path\<close>

lemma get_edge_in_edges:
  assumes "get_edge G u v = Inr d"
  shows "(u, v, d) \<in> set (edges G)"
proof -
  from assms obtain nbrs where u: "map_of (adj_dict G) u = Some nbrs"
    and v: "map_of nbrs v = Some d"
    by (auto simp: get_edge_def split: option.splits)
  from u have "(u, nbrs) \<in> set (adj_dict G)" by (rule map_of_SomeD)
  moreover from v have "(v, d) \<in> set nbrs" by (rule map_of_SomeD)
  ultimately show ?thesis unfolding edges_def by force
qed

lemma path_edges_None:
  assumes "Suc i < length path" and "get_edge G (path ! i) (path ! Suc i) = Inl KeyError"
  shows "path_edges G path = None"
  using assms
proof (induction G path arbitrary: i rule: path_edges.induct)
  case (1 G u v rest)
  show ?case
  proof (cases i)
    case 0
    with "1.prems" show ?thesis by simp
  next
    case (Suc j)
    show ?thesis
    proof (cases "get_edge G u v")
      case (Inl e)
      then show ?thesis by simp
    next
      case (Inr d)
      from "1.prems" Suc have "Suc j < length (v # rest)"
        "get_edge G ((v # rest) ! j) ((v # rest) ! Suc j) = Inl KeyError" by auto
      from "1.IH"[OF Inr this] Inr show ?thesis by simp
    qed
  qed
qed auto

lemma analyze_path_path_edges:
  "analyze_path G path =
     (case path_edges G path of
        None \<Rightarrow> Inl KeyError
      | Some es \<Rightarrow>
          if length path = 1 then Inl ZeroDivisionError
          else Inr \<lparr>total_distance_km = sum_list (map weight es),
                    flight_duration_min = sum_list (map duration es),
                    fuel_consumed_l = sum_list (map fuel es),
                    avg_congestion = sum_list (map congestion es) / (real (length path) - 1)\<rparr>)"
  by (auto simp: analyze_path_def analyze_loop_path_edges split: option.splits)



text \<open>
  C9. If some consecutive pair of the path is not an edge of the graph,
  \<^verbatim>\<open>analyze_path\<close> raises \<^verbatim>\<open>KeyError\<close> (the lookup \<^verbatim>\<open>graph[u][v]\<close> fails) and
  returns no metrics. \<^verbatim>\<open>KeyError\<close> is what the specification calls InvalidPathError.
\<close>

theorem analyze_missing_edge_raises:
  assumes "Suc i < length path"
    and "\<forall>d. (path ! i, path ! Suc i, d) \<notin> set (edges G)"
  shows "analyze_path G path = Inl KeyError"
proof -
  have "get_edge G (path ! i) (path ! Suc i) = Inl KeyError"
    using get_edge_cases[of G "path ! i" "path ! Suc i"] get_edge_in_edges assms(2) by blast
  from path_edges_None[OF assms(1) this] show ?thesis
    by (simp add: analyze_path_path_edges)
qed

theorem analyze_missing_edge_raises_witness:
  "Suc 1 < length [1, 3, 2 :: int] \<and>
   (\<forall>d. ([1, 3, 2] ! 1, [1, 3, 2] ! Suc 1, d) \<notin> set (edges scenario_graph)) \<and>
   analyze_path scenario_graph [1, 3, 2] = Inl KeyError"
proof -
  have a: "Suc 1 < length [1, 3, 2 :: int]" by simp
  have b: "\<forall>d. ([1, 3, 2] ! 1, [1, 3, 2] ! Suc 1, d) \<notin> set (edges scenario_graph)"
    by (simp add: scenario_edges)
  from a b analyze_missing_edge_raises[OF a b] show ?thesis by (intro conjI)
qed

text \<open>
  C5, as the code has it. A path of one node has no edge: its four sums are zero and
  its score is zero, and \<^verbatim>\<open>analyze_path\<close> raises \<^verbatim>\<open>ZeroDivisionError\<close> on it, since
  it divides by \<^verbatim>\<open>len(path) - 1 = 0\<close>. On the empty path the divisor is \<open>-1\<close> and
  the four metrics returned are zero.
\<close>

theorem analyze_short_path:
  "sum_edges G [n] zero_totals = Inr zero_totals \<and>
   path_score G w [n] = Inr 0 \<and>
   analyze_path G [n] = Inl ZeroDivisionError \<and>
   analyze_path G [] =
     Inr \<lparr>total_distance_km = 0, flight_duration_min = 0, fuel_consumed_l = 0,
          avg_congestion = 0\<rparr>"
  by (simp add: path_score_def weighted_sum_def zero_totals_def analyze_path_def)

text \<open>
  C5, as claimed, fails: on the one-node path from A to A the analysis returns no
  metrics, so there is no average congestion that could be 0.
\<close>

theorem analyze_single_node_counterexample:
  "analyze_path scenario_graph [1] = Inl ZeroDivisionError \<and>
   \<not> (\<exists>m. analyze_path scenario_graph [1] = Inr m)"
  by (simp add: analyze_path_def)

subsection \<open>simulate_weather_conditions\<close>

lemma shift_shift: "shift (shift rs a) b = shift rs (b + a)"
  by (simp add: shift_def add.assoc)

lemma uniform_shift: "uniform a b rs = (a + (b - a) * rs 0, shift rs 1)"
  by (simp add: uniform_def random_random_def shift_def)

lemma perturbed_data_eq:
  "perturbed_data rs k d =
     d\<lparr>duration := duration d + 20 * rs (2 * k),
       congestion := congestion d + (2 / 10) * rs (2 * k + 1)\<rparr>"
  by (simp add: perturbed_data_def uniform_shift)

lemma perturbed_data_shift:
  "perturbed_data (shift rs (2 * m)) k d = perturbed_data rs (k + m) d"
  by (simp add: perturbed_data_eq shift_def algebra_simps)

lemma enumerate_shift: "enumerate m xs = map (\<lambda>(k, x). (k + m, x)) (enumerate 0 xs)"
proof (induction xs arbitrary: m)
  case Nil
  then show ?case by simp
next
  case (Cons x xs)
  have "enumerate (Suc m) xs = map (\<lambda>(k, x). (k + Suc m, x)) (enumerate 0 xs)"
    by (rule Cons.IH)
  moreover have "enumerate (Suc 0) xs = map (\<lambda>(k, x). (k + Suc 0, x)) (enumerate 0 xs)"
    by (rule Cons.IH)
  ultimately show ?case by (simp add: case_prod_unfold)
qed

lemma perturb_nbrs_Cons:
  "perturb_nbrs ((v, d) # rest) rs =
     (case perturb_nbrs rest (shift rs 2) of
        (rest', rs3) \<Rightarrow> ((v, perturbed_data rs 0 d) # rest', rs3))"
  by (simp add: uniform_shift perturbed_data_eq shift_def numeral_2_eq_2)

lemma perturb_nbrs_spec:
  "perturb_nbrs nbrs rs =
     (map (\<lambda>(k, (v, d)). (v, perturbed_data rs k d)) (enumerate 0 nbrs),
      shift rs (2 * length nbrs))"
proof (induction nbrs arbitrary: rs)
  case Nil
  then show ?case by (simp add: shift_def)
next
  case (Cons a nbrs)
  obtain v d where a: "a = (v, d)" by (cases a)
  have one: "perturbed_data (shift rs 2) k d = perturbed_data rs (Suc k) d" for k d
    using perturbed_data_shift[of rs 1 k d] by simp
  have tl: "map (\<lambda>(k, (v, d)). (v, perturbed_data (shift rs 2) k d)) (enumerate 0 nbrs)
         = map (\<lambda>(k, (v, d)). (v, perturbed_data rs k d)) (enumerate (Suc 0) nbrs)"
    by (subst (2) enumerate_shift) (simp add: one case_prod_unfold comp_def)
  have sh: "shift (shift rs 2) (2 * length nbrs) = shift rs (2 * length (a # nbrs))"
    by (simp add: shift_shift)
  show ?case
    unfolding a perturb_nbrs_Cons Cons.IH[of "shift rs 2"] tl sh[unfolded a] by simp
qed

lemma adj_edges_Nil: "adj_edges [] = []"
  by (simp add: adj_edges_def)

lemma adj_edges_Cons: "adj_edges ((u, nbrs) # adj) = map (\<lambda>(v, d). (u, v, d)) nbrs @ adj_edges adj"
  by (simp add: adj_edges_def)

lemma map_fst_perturbed:
  "map fst (map (\<lambda>(k, (v, d)). (v, perturbed_data rs k d)) (enumerate n nbrs)) = map fst nbrs"
  by (induction nbrs arbitrary: n) auto

lemma tag_perturbed:
  "map (\<lambda>(v, d). (u, v, d)) (map (\<lambda>(k, (v, d)). (v, perturbed_data rs k d)) (enumerate n nbrs))
     = map (\<lambda>(k, (u, v, d)). (u, v, perturbed_data rs k d))
         (enumerate n (map (\<lambda>(v, d). (u, v, d)) nbrs))"
  by (induction nbrs arbitrary: n) auto

lemma perturbed_offset:
  "map (\<lambda>(k, (u, v, d)). (u, v, perturbed_data (shift rs (2 * m)) k d)) (enumerate n es)
     = map (\<lambda>(k, (u, v, d)). (u, v, perturbed_data rs k d)) (enumerate (n + m) es)"
  by (induction es arbitrary: n) (auto simp: perturbed_data_shift)

lemma perturb_adj_spec:
  "\<exists>adj'. perturb_adj adj rs = (adj', shift rs (2 * length (adj_edges adj))) \<and>
      map (\<lambda>(u, nbrs). (u, map fst nbrs)) adj' = map (\<lambda>(u, nbrs). (u, map fst nbrs)) adj \<and>
      adj_edges adj' = map (\<lambda>(k, (u, v, d)). (u, v, perturbed_data rs k d)) (enumerate 0 (adj_edges adj))"
proof (induction adj arbitrary: rs)
  case Nil
  then show ?case by (simp add: adj_edges_Nil shift_def)
next
  case (Cons a adj)
  obtain u nbrs where a: "a = (u, nbrs)" by (cases a)
  let ?m = "length nbrs"
  let ?nbrs' = "map (\<lambda>(k, (v, d)). (v, perturbed_data rs k d)) (enumerate 0 nbrs)"
  from Cons.IH[of "shift rs (2 * ?m)"] obtain adj'
    where run: "perturb_adj adj (shift rs (2 * ?m))
                  = (adj', shift (shift rs (2 * ?m)) (2 * length (adj_edges adj)))"
      and keys: "map (\<lambda>(u, nbrs). (u, map fst nbrs)) adj' = map (\<lambda>(u, nbrs). (u, map fst nbrs)) adj"
      and fl: "adj_edges adj' = map (\<lambda>(k, (u, v, d)). (u, v, perturbed_data (shift rs (2 * ?m)) k d))
                             (enumerate 0 (adj_edges adj))"
    by blast
  have sh2: "shift (shift rs (2 * ?m)) (2 * length (adj_edges adj))
               = shift rs (2 * length (adj_edges ((u, nbrs) # adj)))"
    by (simp add: shift_shift adj_edges_Cons algebra_simps)
  have r: "perturb_adj ((u, nbrs) # adj) rs
             = ((u, ?nbrs') # adj', shift rs (2 * length (adj_edges ((u, nbrs) # adj))))"
    by (simp only: perturb_adj.simps perturb_nbrs_spec run sh2 prod.case)
  have k: "map (\<lambda>(u, nbrs). (u, map fst nbrs)) ((u, ?nbrs') # adj')
             = map (\<lambda>(u, nbrs). (u, map fst nbrs)) ((u, nbrs) # adj)"
    by (simp only: list.map prod.case map_fst_perturbed keys)
  have f2: "adj_edges adj' = map (\<lambda>(k, (u, v, d)). (u, v, perturbed_data rs k d))
                             (enumerate ?m (adj_edges adj))"
    using fl perturbed_offset[of rs ?m 0 "adj_edges adj"] by simp
  have f: "adj_edges ((u, ?nbrs') # adj')
      = map (\<lambda>(k, (u, v, d)). (u, v, perturbed_data rs k d))
          (enumerate 0 (adj_edges ((u, nbrs) # adj)))"
    by (simp only: adj_edges_Cons tag_perturbed f2 enumerate_append_eq map_append length_map
        add_0)
  from r k f show ?case unfolding a by blast
qed

lemma edges_adj_edges: "edges G = adj_edges (adj_dict G)"
  by (simp add: edges_def adj_edges_def)




subsection \<open>build_air_route_graph\<close>

lemma same_keys_empty: "same_keys empty_DiGraph"
  by (simp add: same_keys_def empty_DiGraph_def)

lemma same_keys_add_node: "same_keys G \<Longrightarrow> same_keys (add_node G n a)"
  by (auto simp: same_keys_def add_node_def update_keys)

lemma same_keys_ensure_node: "same_keys G \<Longrightarrow> same_keys (ensure_node G u)"
  by (simp add: same_keys_def ensure_node_def)

lemma same_keys_add_edge: "same_keys G \<Longrightarrow> same_keys (add_edge G u v d)"
proof -
  assume G: "same_keys G"
  let ?G1 = "ensure_node (ensure_node G u) v"
  have G1: "same_keys ?G1" using G by (intro same_keys_ensure_node)
  show ?thesis
  proof (cases "map_of (adj_dict ?G1) u")
    case None
    with G1 show ?thesis by (simp add: add_edge_def Let_def)
  next
    case (Some nbrs)
    then have "u \<in> set (map fst (adj_dict ?G1))"
      by (auto dest: map_of_SomeD intro: rev_image_eqI)
    with G1 Some show ?thesis
      by (simp add: add_edge_def Let_def same_keys_def update_keys)
  qed
qed

lemma has_node_add_node: "has_node (add_node G n a) m \<longleftrightarrow> has_node G m \<or> m = n"
  by (auto simp: has_node_def add_node_def dom_update)

lemma has_node_ensure_node:
  assumes "same_keys G"
  shows "has_node (ensure_node G u) m \<longleftrightarrow> has_node G m \<or> m = u"
proof (cases "u \<in> set (map fst (adj_dict G))")
  case True
  then have "ensure_node G u = G" by (simp add: ensure_node_def)
  moreover from True assms have "has_node G u" by (simp add: has_node_def same_keys_def)
  ultimately show ?thesis by auto
next
  case False
  then have "node_dict (ensure_node G u) = node_dict G @ [(u, None)]"
    by (simp add: ensure_node_def)
  then show ?thesis by (auto simp: has_node_def)
qed

lemma node_dict_add_edge: "node_dict (add_edge G u v d) = node_dict (ensure_node (ensure_node G u) v)"
  by (simp add: add_edge_def Let_def split: option.splits)

lemma has_node_add_edge:
  assumes "same_keys G"
  shows "has_node (add_edge G u v d) m \<longleftrightarrow> has_node G m \<or> m = u \<or> m = v"
proof -
  have "has_node (add_edge G u v d) m = has_node (ensure_node (ensure_node G u) v) m"
    by (simp add: has_node_def node_dict_add_edge)
  also have "\<dots> \<longleftrightarrow> has_node (ensure_node G u) m \<or> m = v"
    using assms by (intro has_node_ensure_node same_keys_ensure_node)
  also have "\<dots> \<longleftrightarrow> (has_node G m \<or> m = u) \<or> m = v"
    using assms by (simp add: has_node_ensure_node)
  finally show ?thesis by auto
qed

lemma map_of_adj_ensure_node:
  "map_of (adj_dict (ensure_node G x)) a =
     (case map_of (adj_dict G) a of
        Some nbrs \<Rightarrow> Some nbrs
      | None \<Rightarrow> if a = x then Some [] else None)"
proof (cases "x \<in> set (map fst (adj_dict G))")
  case True
  then have "map_of (adj_dict G) x \<noteq> None" by (simp add: map_of_eq_None_iff)
  with True show ?thesis by (auto simp: ensure_node_def split: option.splits)
next
  case False
  then show ?thesis
    by (auto simp: ensure_node_def map_add_def split: option.splits)
qed

lemma get_edge_ensure_node: "get_edge (ensure_node G x) a b = get_edge G a b"
  by (auto simp: get_edge_def map_of_adj_ensure_node split: option.splits)

lemma map_of_ensure_node_self: "\<exists>nbrs. map_of (adj_dict (ensure_node G u)) u = Some nbrs"
  by (simp add: map_of_adj_ensure_node split: option.splits)

lemma map_of_ensure_node_other:
  "map_of (adj_dict G) u = Some nbrs \<Longrightarrow> map_of (adj_dict (ensure_node G v)) u = Some nbrs"
  by (simp add: map_of_adj_ensure_node)

lemma get_edge_add_edge:
  "get_edge (add_edge G u v d) a b = (if a = u \<and> b = v then Inr d else get_edge G a b)"
proof -
  let ?G1 = "ensure_node (ensure_node G u) v"
  from map_of_ensure_node_self[of G u] obtain nbrs0
    where "map_of (adj_dict (ensure_node G u)) u = Some nbrs0" by blast
  then have u: "map_of (adj_dict ?G1) u = Some nbrs0" by (rule map_of_ensure_node_other)
  have old: "get_edge ?G1 a b = get_edge G a b" by (simp add: get_edge_ensure_node)
  have new: "add_edge G u v d
      = ?G1\<lparr>adj_dict := AList.update u (AList.update v d nbrs0) (adj_dict ?G1)\<rparr>"
    using u by (simp add: add_edge_def Let_def)
  show ?thesis
    unfolding new using u old
    by (auto simp: get_edge_def update_conv' split: option.splits)
qed

lemma node_attr_add_node:
  "map_of (node_dict (add_node G n a)) m =
     (if m = n then Some (Some a) else map_of (node_dict G) m)"
proof (cases "n \<in> set (map fst (node_dict G))")
  case True
  then show ?thesis by (simp add: add_node_def update_conv')
next
  case False
  then have "map_of (node_dict G) n = None" by (simp add: map_of_eq_None_iff)
  with False show ?thesis by (auto simp: add_node_def map_add_def split: option.splits)
qed

lemma node_attr_ensure_node:
  assumes "same_keys G"
  shows "map_of (node_dict (ensure_node G u)) m =
     (case map_of (node_dict G) m of
        Some x \<Rightarrow> Some x
      | None \<Rightarrow> if m = u then Some None else None)"
proof (cases "u \<in> set (map fst (adj_dict G))")
  case True
  with assms have "u \<in> set (map fst (node_dict G))" by (simp add: same_keys_def)
  then have "map_of (node_dict G) u \<noteq> None" by (simp add: map_of_eq_None_iff)
  with True show ?thesis by (auto simp: ensure_node_def split: option.splits)
next
  case False
  then show ?thesis by (auto simp: ensure_node_def map_add_def split: option.splits)
qed

lemma node_attr_add_edge:
  assumes "same_keys G"
  shows "map_of (node_dict (add_edge G u v d)) m =
     (case map_of (node_dict G) m of
        Some x \<Rightarrow> Some x
      | None \<Rightarrow> if m = u \<or> m = v then Some None else None)"
  using assms same_keys_ensure_node[OF assms, of u]
  by (auto simp: node_dict_add_edge node_attr_ensure_node split: option.splits)

lemma get_edge_add_node: "get_edge (add_node G n a) u v = get_edge G u v"
  by (auto simp: get_edge_def add_node_def map_add_def split: option.splits)

lemma same_keys_airports: "same_keys G \<Longrightarrow> same_keys (fold add_airport airports G)"
  by (induction airports arbitrary: G) (simp_all add: same_keys_add_node)

lemma same_keys_routes: "same_keys G \<Longrightarrow> same_keys (fold add_route routes G)"
  by (induction routes arbitrary: G) (simp_all add: same_keys_add_edge)

lemma has_node_airports:
  "has_node (fold add_airport airports G) m \<longleftrightarrow> has_node G m \<or> m \<in> airport_id ` set airports"
  by (induction airports arbitrary: G) (auto simp: has_node_add_node)

lemma has_node_routes:
  "same_keys G \<Longrightarrow> has_node (fold add_route routes G) m \<longleftrightarrow>
     has_node G m \<or> m \<in> route_from ` set routes \<union> route_to ` set routes"
  by (induction routes arbitrary: G) (auto simp: has_node_add_edge same_keys_add_edge)

lemma node_attr_airports:
  "map_of (node_dict (fold add_airport airports G)) m =
     (case find (\<lambda>r. airport_id r = m) (rev airports) of
        Some r \<Rightarrow> Some (Some (airport_attr r))
      | None \<Rightarrow> map_of (node_dict G) m)"
  by (induction airports rule: rev_induct) (auto simp: node_attr_add_node)

lemma node_attr_routes:
  "same_keys G \<Longrightarrow> map_of (node_dict (fold add_route routes G)) m =
     (case map_of (node_dict G) m of
        Some x \<Rightarrow> Some x
      | None \<Rightarrow> if m \<in> route_from ` set routes \<union> route_to ` set routes
                then Some None else None)"
  by (induction routes arbitrary: G)
     (auto simp: node_attr_add_edge same_keys_add_edge split: option.splits)

lemma get_edge_airports: "get_edge (fold add_airport airports G) u v = get_edge G u v"
  by (induction airports arbitrary: G) (simp_all add: get_edge_add_node)

lemma get_edge_routes:
  "get_edge (fold add_route routes G) u v =
     (case find (\<lambda>r. route_from r = u \<and> route_to r = v) (rev routes) of
        Some r \<Rightarrow> Inr (route_attr r)
      | None \<Rightarrow> get_edge G u v)"
  by (induction routes rule: rev_induct) (auto simp: get_edge_add_edge)

lemma get_edge_empty: "get_edge empty_DiGraph u v = Inl KeyError"
  by (simp add: get_edge_def empty_DiGraph_def)

text \<open>
  C4, as the code has it. \<^verbatim>\<open>build_air_route_graph\<close> checks nothing and never fails.
  It returns the airports table as given, and a graph whose nodes are the listed airport
  ids together with every id a route starts from or leads to. A node carries the name and
  position of the last airport row with its id; a node that only a route mentions carries
  no attributes. There is an edge from \<open>u\<close> to \<open>v\<close> exactly when some route row goes
  from \<open>u\<close> to \<open>v\<close>, and it carries the four costs of the last such row.
\<close>

theorem build_never_fails_contents:
  "snd (build_air_route_graph airports routes) = airports \<and>
   (\<forall>n. has_node (fst (build_air_route_graph airports routes)) n \<longleftrightarrow>
      n \<in> airport_id ` set airports \<union> route_from ` set routes \<union> route_to ` set routes) \<and>
   (\<forall>n. map_of (node_dict (fst (build_air_route_graph airports routes))) n =
      (case find (\<lambda>r. airport_id r = n) (rev airports) of
         Some r \<Rightarrow> Some (Some (airport_attr r))
       | None \<Rightarrow> if n \<in> route_from ` set routes \<union> route_to ` set routes
                 then Some None else None)) \<and>
   (\<forall>u v. get_edge (fst (build_air_route_graph airports routes)) u v =
      (case find (\<lambda>r. route_from r = u \<and> route_to r = v) (rev routes) of
         Some r \<Rightarrow> Inr (route_attr r)
       | None \<Rightarrow> Inl KeyError))"
proof -
  let ?G1 = "fold add_airport airports empty_DiGraph"
  have G: "build_air_route_graph airports routes = (fold add_route routes ?G1, airports)"
    by (simp add: build_air_route_graph_def Let_def)
  have k: "same_keys ?G1" by (intro same_keys_airports same_keys_empty)
  have e: "\<not> has_node empty_DiGraph n" "map_of (node_dict empty_DiGraph) n = None" for n
    by (simp_all add: has_node_def empty_DiGraph_def)
  have nodes: "has_node (fold add_route routes ?G1) n \<longleftrightarrow>
      n \<in> airport_id ` set airports \<union> route_from ` set routes \<union> route_to ` set routes" for n
    using has_node_routes[OF k, of routes n] has_node_airports[of airports empty_DiGraph n] e(1)
    by auto
  have attrs: "map_of (node_dict (fold add_route routes ?G1)) n =
      (case find (\<lambda>r. airport_id r = n) (rev airports) of
         Some r \<Rightarrow> Some (Some (airport_attr r))
       | None \<Rightarrow> if n \<in> route_from ` set routes \<union> route_to ` set routes
                 then Some None else None)" for n
    by (simp add: node_attr_routes[OF k] node_attr_airports e(2) split: option.splits)
  have edges: "get_edge (fold add_route routes ?G1) u v =
      (case find (\<lambda>r. route_from r = u \<and> route_to r = v) (rev routes) of
         Some r \<Rightarrow> Inr (route_attr r)
       | None \<Rightarrow> Inl KeyError)" for u v
    by (simp add: get_edge_routes get_edge_airports get_edge_empty split: option.splits)
  show ?thesis unfolding G fst_conv snd_conv using nodes attrs edges by blast
qed

text \<open>
  C4, as claimed, fails. The airport id 1 is listed twice and the route leads to the id
  2 that is not listed; the graph is built all the same, with one node 1 that carries
  the second row's attributes and a node 2 without attributes.
\<close>

theorem build_unknown_and_duplicate_counterexample:
  "build_air_route_graph
     [\<lparr>airport_id = 1, airport_name = ''A'', lat = 0, lon = 0\<rparr>,
      \<lparr>airport_id = 1, airport_name = ''B'', lat = 5, lon = 5\<rparr>]
     [\<lparr>route_from = 1, route_to = 2, distance_km = 100, avg_duration_min = 10,
       fuel_cost_l = 20, congestion_factor = 1 / 10\<rparr>]
   = (\<lparr>node_dict = [(1, Some \<lparr>name = ''B'', pos = (5, 5)\<rparr>), (2, None)],
       adj_dict = [(1, [(2, \<lparr>weight = 100, duration = 10, fuel = 20,
                              congestion = 1 / 10\<rparr>)]),
                   (2, [])]\<rparr>,
      [\<lparr>airport_id = 1, airport_name = ''A'', lat = 0, lon = 0\<rparr>,
       \<lparr>airport_id = 1, airport_name = ''B'', lat = 5, lon = 5\<rparr>])"
  by code_simp

subsection \<open>Where the randomness comes from\<close>

lemma perturb_nbrs_prefix:
  assumes "\<forall>n<2 * length nbrs. rs1 n = rs2 n"
  shows "fst (perturb_nbrs nbrs rs1) = fst (perturb_nbrs nbrs rs2)"
proof -
  have "perturbed_data rs1 k d = perturbed_data rs2 k d" if "k < length nbrs" for k d
    using assms that by (simp add: perturbed_data_eq)
  then show ?thesis
    by (auto simp: perturb_nbrs_spec in_set_enumerate_eq)
qed

lemma perturb_adj_Cons:
  "fst (perturb_adj ((u, nbrs) # rest) rs) =
     (u, fst (perturb_nbrs nbrs rs)) # fst (perturb_adj rest (shift rs (2 * length nbrs)))"
  by (simp add: perturb_nbrs_spec split: prod.splits)

lemma perturb_adj_prefix:
  assumes "\<forall>n<2 * length (adj_edges adj). rs1 n = rs2 n"
  shows "fst (perturb_adj adj rs1) = fst (perturb_adj adj rs2)"
  using assms
proof (induction adj arbitrary: rs1 rs2)
  case Nil
  then show ?case by simp
next
  case (Cons a adj)
  obtain u nbrs where a: "a = (u, nbrs)" by (cases a)
  from Cons.prems have all: "\<forall>n<2 * (length nbrs + length (adj_edges adj)). rs1 n = rs2 n"
    by (simp add: a adj_edges_Cons)
  then have "\<forall>n<2 * length nbrs. rs1 n = rs2 n" by simp
  then have hd: "fst (perturb_nbrs nbrs rs1) = fst (perturb_nbrs nbrs rs2)"
    by (rule perturb_nbrs_prefix)
  have "\<forall>n<2 * length (adj_edges adj).
          shift rs1 (2 * length nbrs) n = shift rs2 (2 * length nbrs) n"
    using all by (simp add: shift_def)
  then have "fst (perturb_adj adj (shift rs1 (2 * length nbrs)))
           = fst (perturb_adj adj (shift rs2 (2 * length nbrs)))"
    by (rule Cons.IH)
  with hd show ?case by (simp only: a perturb_adj_Cons)
qed

text \<open>
  C10, as the code has it. \<^verbatim>\<open>simulate_weather_conditions(route_graph)\<close> has no
  parameter for a randomness source: it draws from the global generator of the
  \<^verbatim>\<open>random\<close> module. What it does to a graph is determined by the graph and by the
  next two draws per edge of that generator: two generators that agree on these draws
  give the same perturbed graph. The call leaves the generator advanced by exactly that
  many draws, so that a second call works with later draws.
\<close>

theorem weather_reads_global_generator:
  assumes "\<forall>n<2 * length (edges G). rs1 n = rs2 n"
  shows "fst (simulate_weather_conditions G rs1) = fst (simulate_weather_conditions G rs2) \<and>
         snd (simulate_weather_conditions G rs1) = shift rs1 (2 * length (edges G))"
proof -
  have "fst (perturb_adj (adj_dict G) rs1) = fst (perturb_adj (adj_dict G) rs2)"
    using assms by (intro perturb_adj_prefix) (simp add: edges_adj_edges)
  moreover from perturb_adj_spec[of "adj_dict G" rs1]
  have "snd (perturb_adj (adj_dict G) rs1) = shift rs1 (2 * length (edges G))"
    by (auto simp: edges_adj_edges)
  ultimately show ?thesis
    by (simp add: simulate_weather_conditions_def case_prod_unfold)
qed

theorem weather_reads_global_generator_witness:
  "map half_draws [0..<2 * length (edges scenario_graph)]
     = map half_then_zero [0..<2 * length (edges scenario_graph)] \<and>
   fst (simulate_weather_conditions scenario_graph half_draws)
     = fst (simulate_weather_conditions scenario_graph half_then_zero) \<and>
   snd (simulate_weather_conditions scenario_graph half_draws)
     = shift half_draws (2 * length (edges scenario_graph))"
proof -
  have h: "\<forall>n<2 * length (edges scenario_graph). half_draws n = half_then_zero n"
    by (simp add: scenario_edges_length half_draws_def half_then_zero_def)
  then have "map half_draws [0..<2 * length (edges scenario_graph)]
     = map half_then_zero [0..<2 * length (edges scenario_graph)]"
    by simp
  with weather_reads_global_generator[OF h] show ?thesis by (rule conjI[rotated])
qed

text \<open>
  C10, as claimed, fails: the perturbed values are not determined by what is passed to
  the function. On the same graph two states of the global generator give different
  durations and congestions.
\<close>

theorem weather_not_determined_by_graph_counterexample:
  "fst (simulate_weather_conditions scenario_graph half_draws)
     \<noteq> fst (simulate_weather_conditions scenario_graph zero_draws)"
proof
  assume "fst (simulate_weather_conditions scenario_graph half_draws)
            = fst (simulate_weather_conditions scenario_graph zero_draws)"
  then have "edges (fst (simulate_weather_conditions scenario_graph half_draws))
            = edges (fst (simulate_weather_conditions scenario_graph zero_draws))"
    by simp
  then show False
    unfolding scenario_weather scenario_weather_zero by simp
qed

end
